theory Spec2Isabelle
  imports Complex_Main "HOL-Library.Log_Nat"
begin

section \<open>Kanby: positions, entity store, activity log, undo, realtime fan-out\<close>

text \<open>
  A shallow embedding of the server side of the Kanby board: the position allocator
  (\<^verbatim>\<open>src/lib/position.ts\<close>), the route handlers that mutate boards, lists and
  cards, the activity log and its per-viewer clear marker, the undo handler and the
  in-process publish/subscribe registry.

  Conventions of the model.
  \<^item> JavaScript numbers used as positions are doubles, modelled by the
    \<^typ>\<open>real\<close> numbers they denote; the rounding of the midpoint arithmetic is
    modelled. \<^verbatim>\<open>null\<close> and \<^verbatim>\<open>undefined\<close> arguments are \<^term>\<open>None\<close>.
  \<^item> Dates are modelled by \<^typ>\<open>int\<close> (milliseconds since the epoch); writing a
    date into a JSON payload and reading it back with \<^verbatim>\<open>new Date(...)\<close> is the
    identity on such values.
  \<^item> A handler is a function from the database before the transaction to a result and
    the database after it. A handler that returns an error result, or whose storage
    call throws, leaves the database as it was (the transaction is rolled back).
  \<^item> The notification that a handler publishes after its transaction has committed
    does not touch the database; publishing is modelled on its own, on the registry
    of subscribers.
\<close>

subsection \<open>Position allocator (\<^verbatim>\<open>src/lib/position.ts\<close>)\<close>

text \<open>
  A position is a JavaScript number, a double. Doubles are modelled by the reals they
  denote, and an arithmetic operation on doubles by the exact operation followed by
  rounding to the nearest double, ties to even (\<open>toDouble\<close>, for the normal range:
  53 significant bits, no overflow and no subnormals). \<open>binade x\<close> is the exponent
  \<open>e\<close> with \<open>2 ^ e \<le> \<bar>x\<bar> < 2 ^ (e + 1)\<close>.
\<close>

definition binade :: "real \<Rightarrow> int" where
  "binade x =
     (if 1 \<le> \<bar>x\<bar> then bitlen \<lfloor>\<bar>x\<bar>\<rfloor> - 1 else - bitlen (\<lceil>1 / \<bar>x\<bar>\<rceil> - 1))"

definition roundHalfEven :: "real \<Rightarrow> int" where
  "roundHalfEven q =
     (let f = \<lfloor>q\<rfloor>; r = q - of_int f
      in if r < 1 / 2 then f else if 1 / 2 < r then f + 1 else if even f then f else f + 1)"

definition toDouble :: "real \<Rightarrow> real" where
  "toDouble x =
     (if x = 0 then 0
      else of_int (roundHalfEven (x / 2 powi (binade x - 52))) * 2 powi (binade x - 52))"

text \<open>
  \<^verbatim>\<open>prev == null\<close> holds for \<^verbatim>\<open>null\<close> and for \<^verbatim>\<open>undefined\<close>. The midpoint
  \<^verbatim>\<open>(prev + next) / 2\<close> is a rounded sum, halved, and the fallback
  \<^verbatim>\<open>prev + 0.0001\<close> a rounded sum with the double that the literal denotes: the
  rounded midpoint equals an endpoint for equal neighbours and for neighbours with no
  double strictly between them. The branches with a null argument add or subtract 1
  exactly, which is the double result whenever that is representable (as for all
  integers of magnitude below \<open>2 ^ 53\<close>).
\<close>

definition positionAfter :: "real option \<Rightarrow> real" where
  "positionAfter lastPos = (case lastPos of None \<Rightarrow> 0 | Some l \<Rightarrow> l) + 1"

definition positionBetween :: "real option \<Rightarrow> real option \<Rightarrow> real" where
  "positionBetween prev next =
     (case (prev, next) of
        (None, None) \<Rightarrow> 0
      | (None, Some n) \<Rightarrow> n - 1
      | (Some p, None) \<Rightarrow> p + 1
      | (Some p, Some n) \<Rightarrow>
          (let mid = toDouble (toDouble (p + n) / 2)
           in if mid = p \<or> mid = n then toDouble (p + toDouble 0.0001) else mid))"

subsection \<open>Data model\<close>

text \<open>
  Rows carry the columns that the handlers read or write. The timestamp columns that
  only the storage layer maintains (\<^verbatim>\<open>createdAt\<close> and \<^verbatim>\<open>updatedAt\<close> of lists
  and cards, \<^verbatim>\<open>createdAt\<close> of boards) are selected by the handlers for output and
  for the logged snapshots but never read or passed by them, and are left out: the
  storage layer stamps every row it creates, also a card that undo recreates. A
  board's \<^verbatim>\<open>updatedAt\<close>, which the handlers write, and an event's
  \<^verbatim>\<open>createdAt\<close>, which the activity queries read, are modelled. Labels are never
  touched by a handler and are left out.
\<close>

type_synonym ident = string
type_synonym time = int

datatype EntityType = BOARD | LIST | CARD

datatype EventType =
    BoardCreated | BoardRenamed | BoardDeleted
  | ListCreated | ListRenamed | ListDeleted
  | CardCreated | CardUpdated | CardMoved | CardDeleted
  | CardUndone | ActivityCleared

record Board =
  b_id :: ident
  b_name :: string
  b_updatedAt :: time

record KList =
  l_id :: ident
  l_boardId :: ident
  l_title :: string
  l_position :: real

record Card =
  c_id :: ident
  c_boardId :: ident
  c_listId :: ident
  c_title :: string
  c_description :: string
  c_dueAt :: "time option"
  c_position :: real

text \<open>
  A JSON snapshot stored under \<^verbatim>\<open>before\<close> or \<^verbatim>\<open>after\<close> of an event's
  \<^verbatim>\<open>data\<close>: an object whose keys may be missing (\<^term>\<open>None\<close>). A due date is
  stored as JSON \<^verbatim>\<open>null\<close> or as an ISO string.
\<close>

datatype dueJson = DueNull | DueAt time

record Snapshot =
  s_id :: "ident option"
  s_boardId :: "ident option"
  s_listId :: "ident option"
  s_title :: "string option"
  s_description :: "string option"
  s_dueAt :: "dueJson option"
  s_position :: "real option"
  s_name :: "string option"
  s_cardCount :: "nat option"

record ActivityEvent =
  ev_id :: ident
  ev_boardId :: ident
  ev_entityType :: EntityType
  ev_entityId :: ident
  ev_type :: EventType
  ev_actorUserId :: "ident option"
  ev_actorName :: string
  ev_actorClientId :: ident
  ev_revertedEventId :: "ident option"
  ev_before :: "Snapshot option"
  ev_after :: "Snapshot option"
  ev_createdAt :: time

record Db =
  boards :: "Board list"
  lists :: "KList list"
  cards :: "Card list"
  events :: "ActivityEvent list"

text \<open>The actor resolved from the request headers (\<^verbatim>\<open>src/lib/actor.ts\<close>).\<close>

record Actor =
  actorUserId :: "ident option"
  actorName :: string
  actorClientId :: ident

text \<open>
  What a request takes from its environment: the application clock read by
  \<^verbatim>\<open>new Date()\<close>, the storage clock that stamps a created event, and the
  identifiers the storage layer generates for created rows (the \<open>k\<close>-th row created
  by the request gets \<open>newId k\<close>).
\<close>

record Env =
  clock :: time
  dbClock :: time
  newId :: "nat \<Rightarrow> ident"

datatype Failure =
    BadRequest | NotFound | InvalidNeighbors | InvalidData | Unsupported | StorageFailure

subsection \<open>Storage layer\<close>

definition findBoard :: "Db \<Rightarrow> ident \<Rightarrow> Board option" where
  "findBoard db i = find (\<lambda>b. b_id b = i) (boards db)"

definition findList :: "Db \<Rightarrow> ident \<Rightarrow> KList option" where
  "findList db i = find (\<lambda>l. l_id l = i) (lists db)"

definition findCard :: "Db \<Rightarrow> ident \<Rightarrow> Card option" where
  "findCard db i = find (\<lambda>c. c_id c = i) (cards db)"

definition findEvent :: "Db \<Rightarrow> ident \<Rightarrow> ActivityEvent option" where
  "findEvent db i = find (\<lambda>e. ev_id e = i) (events db)"

text \<open>
  Modelled from the spec: the Prisma schema (\<^verbatim>\<open>prisma/schema.prisma\<close>) is not among
  the sources. Following the data model of the spec (a list belongs to one board, a
  card to one list and one board, an event to one board, deleting a board or a list
  cascades) and the handlers' comments on cascading deletes, a write that would
  duplicate a primary key, leave a dangling reference or address a missing row throws,
  which is \<^term>\<open>None\<close> here.
\<close>

definition insertBoard :: "Board \<Rightarrow> Db \<Rightarrow> Db option" where
  "insertBoard b db =
     (if findBoard db (b_id b) \<noteq> None then None
      else Some (db\<lparr>boards := boards db @ [b]\<rparr>))"

definition insertList :: "KList \<Rightarrow> Db \<Rightarrow> Db option" where
  "insertList l db =
     (if findList db (l_id l) \<noteq> None \<or> findBoard db (l_boardId l) = None then None
      else Some (db\<lparr>lists := lists db @ [l]\<rparr>))"

definition insertCard :: "Card \<Rightarrow> Db \<Rightarrow> Db option" where
  "insertCard c db =
     (if findCard db (c_id c) \<noteq> None \<or> findBoard db (c_boardId c) = None
         \<or> findList db (c_listId c) = None then None
      else Some (db\<lparr>cards := cards db @ [c]\<rparr>))"

definition insertEvent :: "ActivityEvent \<Rightarrow> Db \<Rightarrow> Db option" where
  "insertEvent e db =
     (if findEvent db (ev_id e) \<noteq> None \<or> findBoard db (ev_boardId e) = None then None
      else Some (db\<lparr>events := events db @ [e]\<rparr>))"

definition updateBoard :: "ident \<Rightarrow> (Board \<Rightarrow> Board) \<Rightarrow> Db \<Rightarrow> Db option" where
  "updateBoard i f db =
     (if findBoard db i = None then None
      else Some (db\<lparr>boards := map (\<lambda>b. if b_id b = i then f b else b) (boards db)\<rparr>))"

definition updateList :: "ident \<Rightarrow> (KList \<Rightarrow> KList) \<Rightarrow> Db \<Rightarrow> Db option" where
  "updateList i f db =
     (if findList db i = None then None
      else Some (db\<lparr>lists := map (\<lambda>l. if l_id l = i then f l else l) (lists db)\<rparr>))"

definition updateCardRow :: "ident \<Rightarrow> (Card \<Rightarrow> Card) \<Rightarrow> Db \<Rightarrow> Db option" where
  "updateCardRow i f db =
     (case findCard db i of
        None \<Rightarrow> None
      | Some c \<Rightarrow>
          if findList db (c_listId (f c)) = None then None
          else Some (db\<lparr>cards := map (\<lambda>c. if c_id c = i then f c else c) (cards db)\<rparr>))"

definition deleteCardRow :: "ident \<Rightarrow> Db \<Rightarrow> Db option" where
  "deleteCardRow i db =
     (if findCard db i = None then None
      else Some (db\<lparr>cards := filter (\<lambda>c. c_id c \<noteq> i) (cards db)\<rparr>))"

definition deleteListRow :: "ident \<Rightarrow> Db \<Rightarrow> Db option" where
  "deleteListRow i db =
     (if findList db i = None then None
      else Some (db\<lparr>lists := filter (\<lambda>l. l_id l \<noteq> i) (lists db),
                     cards := filter (\<lambda>c. c_listId c \<noteq> i) (cards db)\<rparr>))"

definition deleteBoardRow :: "ident \<Rightarrow> Db \<Rightarrow> Db option" where
  "deleteBoardRow i db =
     (if findBoard db i = None then None
      else Some (db\<lparr>boards := filter (\<lambda>b. b_id b \<noteq> i) (boards db),
                     lists := filter (\<lambda>l. l_boardId l \<noteq> i) (lists db),
                     cards := filter (\<lambda>c. c_boardId c \<noteq> i
                        \<and> (case findList db (c_listId c) of
                              None \<Rightarrow> True | Some l \<Rightarrow> l_boardId l \<noteq> i)) (cards db),
                     events := filter (\<lambda>e. ev_boardId e \<noteq> i) (events db)\<rparr>))"

text \<open>
  \<^verbatim>\<open>tx.board.update({ where: { id }, data: { updatedAt: new Date() } })\<close>, the
  ``touch'' that closes most transactions.
\<close>

definition touchBoard :: "Env \<Rightarrow> ident \<Rightarrow> Db \<Rightarrow> Db option" where
  "touchBoard env i db = updateBoard i (\<lambda>b. b\<lparr>b_updatedAt := clock env\<rparr>) db"

text \<open>
  \<^verbatim>\<open>findFirst({ where: { listId }, orderBy: { position: "desc" }, select: { position } })\<close>
  and its counterpart on the lists of a board: the greatest position, if any.
\<close>

definition greatest :: "real list \<Rightarrow> real option" where
  "greatest ps = (case ps of [] \<Rightarrow> None | p # qs \<Rightarrow> Some (fold max qs p))"

definition lastCardPosition :: "Db \<Rightarrow> ident \<Rightarrow> real option" where
  "lastCardPosition db lid =
     greatest (map c_position (filter (\<lambda>c. c_listId c = lid) (cards db)))"

definition lastListPosition :: "Db \<Rightarrow> ident \<Rightarrow> real option" where
  "lastListPosition db bid =
     greatest (map l_position (filter (\<lambda>l. l_boardId l = bid) (lists db)))"

text \<open>
  The outcome of a transaction: a storage call that throws aborts it, and the database
  stays as it was.
\<close>

definition commit :: "Db \<Rightarrow> 'a \<Rightarrow> Db option \<Rightarrow> (Failure + 'a) \<times> Db" where
  "commit db r res =
     (case res of None \<Rightarrow> (Inl StorageFailure, db) | Some db' \<Rightarrow> (Inr r, db'))"

subsection \<open>Event payloads\<close>

definition emptySnapshot :: Snapshot where
  "emptySnapshot = \<lparr>s_id = None, s_boardId = None, s_listId = None, s_title = None,
     s_description = None, s_dueAt = None, s_position = None, s_name = None,
     s_cardCount = None\<rparr>"

definition dueToJson :: "time option \<Rightarrow> dueJson" where
  "dueToJson d = (case d of None \<Rightarrow> DueNull | Some t \<Rightarrow> DueAt t)"

definition cardSnapshot :: "Card \<Rightarrow> Snapshot" where
  "cardSnapshot c = emptySnapshot\<lparr>s_id := Some (c_id c), s_boardId := Some (c_boardId c),
     s_listId := Some (c_listId c), s_title := Some (c_title c),
     s_description := Some (c_description c), s_dueAt := Some (dueToJson (c_dueAt c)),
     s_position := Some (c_position c)\<rparr>"

definition movedSnapshot :: "ident \<Rightarrow> real \<Rightarrow> Snapshot" where
  "movedSnapshot lid pos = emptySnapshot\<lparr>s_listId := Some lid, s_position := Some pos\<rparr>"

definition listSnapshot :: "KList \<Rightarrow> Snapshot" where
  "listSnapshot l = emptySnapshot\<lparr>s_id := Some (l_id l), s_boardId := Some (l_boardId l),
     s_title := Some (l_title l), s_position := Some (l_position l)\<rparr>"

definition boardSnapshot :: "Board \<Rightarrow> Snapshot" where
  "boardSnapshot b = emptySnapshot\<lparr>s_id := Some (b_id b), s_name := Some (b_name b)\<rparr>"

text \<open>
  The row written by \<^verbatim>\<open>tx.activityEvent.create\<close>: the \<open>k\<close>-th row the request
  creates, stamped by the storage clock.
\<close>

definition newEvent ::
  "Env \<Rightarrow> nat \<Rightarrow> Actor \<Rightarrow> ident \<Rightarrow> EntityType \<Rightarrow> ident \<Rightarrow> EventType \<Rightarrow> ident option
     \<Rightarrow> Snapshot option \<Rightarrow> Snapshot option \<Rightarrow> ActivityEvent" where
  "newEvent env k actor bid ety eid ty reverted bef aft =
     \<lparr>ev_id = newId env k, ev_boardId = bid, ev_entityType = ety, ev_entityId = eid,
      ev_type = ty, ev_actorUserId = actorUserId actor, ev_actorName = actorName actor,
      ev_actorClientId = actorClientId actor, ev_revertedEventId = reverted,
      ev_before = bef, ev_after = aft, ev_createdAt = dbClock env\<rparr>"

subsection \<open>Request validation\<close>

text \<open>
  The zod schemas of the handlers: \<^verbatim>\<open>z.string().trim().min(1).max(n)\<close> for names
  and titles, \<^verbatim>\<open>z.string().min(1)\<close> for identifiers. Strings are byte strings here
  and white space is the ASCII white space.
\<close>

definition isWhite :: "char \<Rightarrow> bool" where
  "isWhite c = (c \<in> set [CHR '' '', CHR 0x09, CHR 0x0A, CHR 0x0B, CHR 0x0C, CHR 0x0D])"

definition trim :: "string \<Rightarrow> string" where
  "trim s = rev (dropWhile isWhite (rev (dropWhile isWhite s)))"

definition validName :: "nat \<Rightarrow> string \<Rightarrow> bool" where
  "validName n s = (1 \<le> length (trim s) \<and> length (trim s) \<le> n)"

definition validId :: "ident \<Rightarrow> bool" where
  "validId i = (1 \<le> length i)"

definition validOptId :: "ident option \<Rightarrow> bool" where
  "validOptId i = (case i of None \<Rightarrow> True | Some j \<Rightarrow> validId j)"

subsection \<open>Boards (\<^verbatim>\<open>src/app/api/boards/route.ts\<close>, \<^verbatim>\<open>src/app/api/boards/[boardId]/route.ts\<close>)\<close>

text \<open>
  A handler first checks the request (a rejected request is \<^term>\<open>BadRequest\<close>),
  then runs its transaction. The rows a handler reads before and writes after a change,
  \<^verbatim>\<open>before\<close> and \<^verbatim>\<open>after\<close> in the sources, are \<open>bef\<close> and \<open>aft\<close>
  here; the card that \<^verbatim>\<open>MoveCard\<close> reads, \<^verbatim>\<open>card\<close>, is \<open>crd\<close>.
\<close>

definition insertAll :: "('a \<Rightarrow> Db \<Rightarrow> Db option) \<Rightarrow> 'a list \<Rightarrow> Db \<Rightarrow> Db option" where
  "insertAll ins xs db = fold (\<lambda>x r. Option.bind r (ins x)) xs (Some db)"

definition defaultLists :: "Env \<Rightarrow> ident \<Rightarrow> KList list" where
  "defaultLists env bid =
     [\<lparr>l_id = newId env 1, l_boardId = bid, l_title = ''Todo'', l_position = 1\<rparr>,
      \<lparr>l_id = newId env 2, l_boardId = bid, l_title = ''Doing'', l_position = 2\<rparr>,
      \<lparr>l_id = newId env 3, l_boardId = bid, l_title = ''Done'', l_position = 3\<rparr>]"

definition createBoard ::
  "Env \<Rightarrow> Actor \<Rightarrow> string option \<Rightarrow> Db \<Rightarrow> (Failure + Board \<times> KList list) \<times> Db" where
  "createBoard env actor nameReq db =
     (if (case nameReq of None \<Rightarrow> False | Some n \<Rightarrow> \<not> validName 80 n)
      then (Inl BadRequest, db)
      else
        let name = (case nameReq of None \<Rightarrow> ''My Board'' | Some n \<Rightarrow> trim n);
            board = \<lparr>b_id = newId env 0, b_name = name, b_updatedAt = dbClock env\<rparr>;
            ls = defaultLists env (b_id board);
            evBoard = newEvent env 4 actor (b_id board) BOARD (b_id board) BoardCreated
                        None None (Some (boardSnapshot board));
            evLists = map (\<lambda>(k, l). newEvent env k actor (b_id board) LIST (l_id l)
                        ListCreated None None (Some ((listSnapshot l)\<lparr>s_boardId := None\<rparr>)))
                        (zip [5, 6, 7] ls)
        in commit db (board, ls)
             (Option.bind (insertBoard board db) (\<lambda>d1.
              Option.bind (insertAll insertList ls d1) (\<lambda>d2.
              Option.bind (insertEvent evBoard d2) (\<lambda>d3.
              insertAll insertEvent evLists d3)))))"

definition renameBoard ::
  "Env \<Rightarrow> Actor \<Rightarrow> ident \<Rightarrow> string \<Rightarrow> Db \<Rightarrow> (Failure + Board) \<times> Db" where
  "renameBoard env actor boardId nameReq db =
     (if \<not> validId boardId \<or> \<not> validName 80 nameReq then (Inl BadRequest, db)
      else case findBoard db boardId of
        None \<Rightarrow> (Inl NotFound, db)
      | Some bef \<Rightarrow>
          let aft = bef\<lparr>b_name := trim nameReq\<rparr>;
              ev = newEvent env 0 actor (b_id bef) BOARD (b_id bef) BoardRenamed None
                     (Some (boardSnapshot bef)) (Some (boardSnapshot aft))
          in commit db aft
               (Option.bind (updateBoard (b_id bef) (\<lambda>b. b\<lparr>b_name := trim nameReq\<rparr>) db)
                  (insertEvent ev)))"

definition deleteBoard ::
  "Env \<Rightarrow> Actor \<Rightarrow> ident \<Rightarrow> Db \<Rightarrow> (Failure + ident) \<times> Db" where
  "deleteBoard env actor boardId db =
     (if \<not> validId boardId then (Inl BadRequest, db)
      else case findBoard db boardId of
        None \<Rightarrow> (Inl NotFound, db)
      | Some bef \<Rightarrow> commit db (b_id bef) (deleteBoardRow (b_id bef) db))"

subsection \<open>Lists (\<^verbatim>\<open>src/app/api/boards/[boardId]/lists/route.ts\<close>, \<^verbatim>\<open>src/app/api/boards/[boardId]/lists/[listId]/route.ts\<close>)\<close>

definition createList ::
  "Env \<Rightarrow> Actor \<Rightarrow> ident \<Rightarrow> string \<Rightarrow> Db \<Rightarrow> (Failure + KList) \<times> Db" where
  "createList env actor boardId titleReq db =
     (if \<not> validId boardId \<or> \<not> validName 80 titleReq then (Inl BadRequest, db)
      else
        let l = \<lparr>l_id = newId env 0, l_boardId = boardId, l_title = trim titleReq,
                 l_position = positionAfter (lastListPosition db boardId)\<rparr>;
            ev = newEvent env 1 actor boardId LIST (l_id l) ListCreated None None
                   (Some (listSnapshot l))
        in commit db l
             (Option.bind (insertList l db) (\<lambda>d1.
              Option.bind (insertEvent ev d1) (touchBoard env boardId))))"

definition findListOfBoard :: "Db \<Rightarrow> ident \<Rightarrow> ident \<Rightarrow> KList option" where
  "findListOfBoard db listId boardId =
     find (\<lambda>l. l_id l = listId \<and> l_boardId l = boardId) (lists db)"

definition renameList ::
  "Env \<Rightarrow> Actor \<Rightarrow> ident \<Rightarrow> ident \<Rightarrow> string option \<Rightarrow> Db \<Rightarrow> (Failure + KList) \<times> Db" where
  "renameList env actor boardId listId titleReq db =
     (if \<not> validId boardId \<or> \<not> validId listId then (Inl BadRequest, db)
      else case titleReq of
        None \<Rightarrow> (Inl BadRequest, db)
      | Some t \<Rightarrow>
          if \<not> validName 80 t then (Inl BadRequest, db)
          else case findListOfBoard db listId boardId of
            None \<Rightarrow> (Inl NotFound, db)
          | Some bef \<Rightarrow>
              let aft = bef\<lparr>l_title := trim t\<rparr>;
                  ev = newEvent env 0 actor boardId LIST (l_id bef) ListRenamed None
                         (Some (listSnapshot bef)) (Some (listSnapshot aft))
              in commit db aft
                   (Option.bind (updateList (l_id bef) (\<lambda>l. l\<lparr>l_title := trim t\<rparr>) db) (\<lambda>d1.
                    Option.bind (insertEvent ev d1) (touchBoard env boardId))))"

definition deleteList ::
  "Env \<Rightarrow> Actor \<Rightarrow> ident \<Rightarrow> ident \<Rightarrow> Db \<Rightarrow> (Failure + ident \<times> ident \<times> nat) \<times> Db" where
  "deleteList env actor boardId listId db =
     (if \<not> validId boardId \<or> \<not> validId listId then (Inl BadRequest, db)
      else case findListOfBoard db listId boardId of
        None \<Rightarrow> (Inl NotFound, db)
      | Some bef \<Rightarrow>
          let cardCount = length (filter (\<lambda>c. c_listId c = l_id bef) (cards db));
              ev = newEvent env 0 actor boardId LIST (l_id bef) ListDeleted None
                     (Some ((listSnapshot bef)\<lparr>s_cardCount := Some cardCount\<rparr>)) None
          in commit db (l_id bef, l_boardId bef, cardCount)
               (Option.bind (deleteListRow (l_id bef) db) (\<lambda>d1.
                Option.bind (insertEvent ev d1) (touchBoard env boardId))))"

subsection \<open>Cards (\<^verbatim>\<open>src/unnamed/part_008\<close>, \<^verbatim>\<open>src/app/api/cards/[cardId]/route.ts\<close>)\<close>

definition createCard ::
  "Env \<Rightarrow> Actor \<Rightarrow> ident \<Rightarrow> ident \<Rightarrow> string \<Rightarrow> string option \<Rightarrow> time option \<Rightarrow> Db
     \<Rightarrow> (Failure + Card) \<times> Db" where
  "createCard env actor boardId listId titleReq descReq dueReq db =
     (if \<not> validId boardId \<or> \<not> validId listId \<or> \<not> validName 120 titleReq
         \<or> (case descReq of None \<Rightarrow> False | Some d \<Rightarrow> 10000 < length d)
      then (Inl BadRequest, db)
      else
        let c = \<lparr>c_id = newId env 0, c_boardId = boardId, c_listId = listId,
                 c_title = trim titleReq,
                 c_description = (case descReq of None \<Rightarrow> [] | Some d \<Rightarrow> d),
                 c_dueAt = dueReq,
                 c_position = positionAfter (lastCardPosition db listId)\<rparr>;
            ev = newEvent env 1 actor boardId CARD (c_id c) CardCreated None None
                   (Some (cardSnapshot c))
        in commit db c
             (Option.bind (insertCard c db) (\<lambda>d1.
              Option.bind (insertEvent ev d1) (touchBoard env boardId))))"

record CardUpdate =
  u_title :: "string option"
  u_description :: "string option"
  u_dueAt :: "dueJson option"

definition applyUpdate :: "CardUpdate \<Rightarrow> Card \<Rightarrow> Card" where
  "applyUpdate u c =
     c\<lparr>c_title := (case u_title u of None \<Rightarrow> c_title c | Some t \<Rightarrow> trim t),
       c_description := (case u_description u of None \<Rightarrow> c_description c | Some d \<Rightarrow> d),
       c_dueAt := (case u_dueAt u of None \<Rightarrow> c_dueAt c | Some DueNull \<Rightarrow> None
                   | Some (DueAt t) \<Rightarrow> Some t)\<rparr>"

definition updateCard ::
  "Env \<Rightarrow> Actor \<Rightarrow> ident \<Rightarrow> CardUpdate \<Rightarrow> Db \<Rightarrow> (Failure + Card) \<times> Db" where
  "updateCard env actor cardId u db =
     (if \<not> validId cardId
         \<or> (case u_title u of None \<Rightarrow> False | Some t \<Rightarrow> \<not> validName 120 t)
         \<or> (case u_description u of None \<Rightarrow> False | Some d \<Rightarrow> 10000 < length d)
         \<or> (u_title u = None \<and> u_description u = None \<and> u_dueAt u = None)
      then (Inl BadRequest, db)
      else case findCard db cardId of
        None \<Rightarrow> (Inl NotFound, db)
      | Some bef \<Rightarrow>
          let aft = applyUpdate u bef;
              ev = newEvent env 0 actor (c_boardId bef) CARD (c_id bef) CardUpdated None
                     (Some (cardSnapshot bef)) (Some (cardSnapshot aft))
          in commit db aft
               (Option.bind (updateCardRow cardId (applyUpdate u) db) (\<lambda>d1.
                Option.bind (insertEvent ev d1) (touchBoard env (c_boardId bef)))))"

definition deleteCard ::
  "Env \<Rightarrow> Actor \<Rightarrow> ident \<Rightarrow> Db \<Rightarrow> (Failure + ident \<times> ident) \<times> Db" where
  "deleteCard env actor cardId db =
     (if \<not> validId cardId then (Inl BadRequest, db)
      else case findCard db cardId of
        None \<Rightarrow> (Inl NotFound, db)
      | Some bef \<Rightarrow>
          let ev = newEvent env 0 actor (c_boardId bef) CARD (c_id bef) CardDeleted None
                     (Some (cardSnapshot bef)) None
          in commit db (c_id bef, c_boardId bef)
               (Option.bind (deleteCardRow (c_id bef) db) (\<lambda>d1.
                Option.bind (insertEvent ev d1) (touchBoard env (c_boardId bef)))))"

subsection \<open>Moving a card (\<^verbatim>\<open>src/app/api/cards/[cardId]/move/route.ts\<close>)\<close>

text \<open>
  A neighbour is looked up only when its identifier is supplied (and not \<^verbatim>\<open>null\<close>);
  a lookup that finds no card gives \<^verbatim>\<open>null\<close>, as does an identifier not supplied.
\<close>

definition findNeighbor :: "Db \<Rightarrow> ident option \<Rightarrow> Card option" where
  "findNeighbor db i = (case i of None \<Rightarrow> None | Some j \<Rightarrow> findCard db j)"

definition moveCard ::
  "Env \<Rightarrow> Actor \<Rightarrow> ident \<Rightarrow> ident \<Rightarrow> ident option \<Rightarrow> ident option \<Rightarrow> Db
     \<Rightarrow> (Failure + Card) \<times> Db" where
  "moveCard env actor cardId toListId beforeCardId afterCardId db =
     (if \<not> validId cardId \<or> \<not> validId toListId \<or> \<not> validOptId beforeCardId
         \<or> \<not> validOptId afterCardId
      then (Inl BadRequest, db)
      else case findCard db cardId of
        None \<Rightarrow> (Inl NotFound, db)
      | Some crd \<Rightarrow>
          let beforeNeighbor = findNeighbor db beforeCardId;
              afterNeighbor = findNeighbor db afterCardId
          in if (case beforeNeighbor of None \<Rightarrow> False | Some n \<Rightarrow> c_listId n \<noteq> toListId)
             then (Inl InvalidNeighbors, db)
             else if (case afterNeighbor of None \<Rightarrow> False | Some n \<Rightarrow> c_listId n \<noteq> toListId)
             then (Inl InvalidNeighbors, db)
             else
               let nextPos =
                     (if beforeNeighbor = None \<and> afterNeighbor = None
                      then positionBetween (lastCardPosition db toListId) None
                      else positionBetween (map_option c_position beforeNeighbor)
                             (map_option c_position afterNeighbor));
                   updated = crd\<lparr>c_listId := toListId, c_position := nextPos\<rparr>;
                   ev = newEvent env 0 actor (c_boardId crd) CARD (c_id crd) CardMoved None
                          (Some (movedSnapshot (c_listId crd) (c_position crd)))
                          (Some (movedSnapshot (c_listId updated) (c_position updated)))
               in commit db updated
                    (Option.bind
                       (updateCardRow (c_id crd)
                          (\<lambda>c. c\<lparr>c_listId := toListId, c_position := nextPos\<rparr>) db) (\<lambda>d1.
                     Option.bind (insertEvent ev d1) (touchBoard env (c_boardId crd)))))"

subsection \<open>Activity log (\<^verbatim>\<open>GET\<close> of \<^verbatim>\<open>src/app/api/boards/[boardId]/lists/route.ts\<close>, \<^verbatim>\<open>src/app/api/boards/[boardId]/activity/clear/route.ts\<close>)\<close>

text \<open>
  The activity query is the \<^verbatim>\<open>GET\<close> handler that filters by the actor's clear
  marker. \<^verbatim>\<open>src/unnamed/part_009\<close> is an earlier revision of it, with the same
  limit and order and without the filter.
\<close>

text \<open>
  \<^verbatim>\<open>parseInt(s, 10)\<close>: leading white space is skipped, a sign is read, and the
  longest prefix of decimal digits is the value; with no digit the result is
  \<^verbatim>\<open>NaN\<close>, which is \<^term>\<open>None\<close>.
\<close>

definition isDigit :: "char \<Rightarrow> bool" where
  "isDigit c = (48 \<le> (of_char c :: nat) \<and> (of_char c :: nat) \<le> 57)"

definition digitsValue :: "string \<Rightarrow> int option" where
  "digitsValue s =
     (let ds = takeWhile isDigit s
      in if ds = [] then None
         else Some (foldl (\<lambda>a c. 10 * a + (int (of_char c) - 48)) 0 ds))"

definition parseInt10 :: "string \<Rightarrow> int option" where
  "parseInt10 s =
     (case dropWhile isWhite s of
        [] \<Rightarrow> None
      | c # r \<Rightarrow>
          if c = CHR ''-'' then map_option uminus (digitsValue r)
          else if c = CHR ''+'' then digitsValue r
          else digitsValue (c # r))"

text \<open>
  \<^verbatim>\<open>Math.min(Math.max(parseInt(limitRaw, 10) || 50, 1), 200)\<close> with
  \<^verbatim>\<open>limitRaw = url.searchParams.get("limit") ?? "50"\<close>: \<^verbatim>\<open>||\<close> replaces
  \<^verbatim>\<open>NaN\<close> and \<^verbatim>\<open>0\<close> by 50.
\<close>

definition effectiveLimit :: "string option \<Rightarrow> nat" where
  "effectiveLimit limitParam =
     (let limitRaw = (case limitParam of None \<Rightarrow> ''50'' | Some s \<Rightarrow> s);
          parsed = (case parseInt10 limitRaw of
                      None \<Rightarrow> 50
                    | Some k \<Rightarrow> if k = 0 then 50 else k)
      in nat (min (max parsed 1) 200))"

text \<open>
  \<^verbatim>\<open>orderBy: { createdAt: "desc" }\<close>. Rows with equal timestamps keep their
  insertion order (the sort is stable).
\<close>

definition newestFirst :: "ActivityEvent list \<Rightarrow> ActivityEvent list" where
  "newestFirst es = sort_key (\<lambda>e. - ev_createdAt e) es"

definition clearedAt :: "Db \<Rightarrow> ident \<Rightarrow> ident \<Rightarrow> time option" where
  "clearedAt db boardId clientId =
     (case newestFirst (filter (\<lambda>e. ev_boardId e = boardId \<and> ev_type e = ActivityCleared
                                   \<and> ev_actorClientId e = clientId) (events db)) of
        [] \<Rightarrow> None
      | e # _ \<Rightarrow> Some (ev_createdAt e))"

definition getActivity ::
  "Actor \<Rightarrow> ident \<Rightarrow> string option \<Rightarrow> Db \<Rightarrow> Failure + ActivityEvent list" where
  "getActivity actor boardId limitParam db =
     (if \<not> validId boardId then Inl BadRequest
      else
        let limit = effectiveLimit limitParam;
            cleared = clearedAt db boardId (actorClientId actor)
        in Inr (take limit (newestFirst
              (filter (\<lambda>e. ev_boardId e = boardId
                         \<and> (case cleared of None \<Rightarrow> True | Some t \<Rightarrow> t < ev_createdAt e))
                 (events db)))))"

definition clearActivity ::
  "Env \<Rightarrow> Actor \<Rightarrow> ident \<Rightarrow> Db \<Rightarrow> (Failure + ident \<times> time) \<times> Db" where
  "clearActivity env actor boardId db =
     (if \<not> validId boardId then (Inl BadRequest, db)
      else case findBoard db boardId of
        None \<Rightarrow> (Inl NotFound, db)
      | Some board \<Rightarrow>
          let evt = newEvent env 0 actor boardId BOARD boardId ActivityCleared None None None
          in commit db (ev_id evt, ev_createdAt evt)
               (Option.bind (insertEvent evt db) (touchBoard env boardId)))"

subsection \<open>Undo (\<^verbatim>\<open>src/unnamed/part_007\<close>, the route \<^verbatim>\<open>/api/activity/{eventId}/undo\<close>)\<close>

text \<open>
  The handler with the idempotency check and the three card branches
  (\<^verbatim>\<open>src/unnamed/part_007\<close>). \<^verbatim>\<open>src/unnamed/part_006\<close> is an earlier revision of
  the same handler, without the check and without the \<^verbatim>\<open>card.deleted\<close> branch.
\<close>

record CardState =
  cs_id :: ident
  cs_boardId :: ident
  cs_listId :: ident
  cs_title :: "string option"
  cs_description :: "string option"
  cs_dueAt :: "dueJson option"
  cs_position :: "real option"

record CardPatch =
  cp_listId :: "ident option"
  cp_title :: "string option"
  cp_description :: "string option"
  cp_dueAt :: "dueJson option"
  cp_position :: "real option"

text \<open>\<^verbatim>\<open>v.dueAt ?? undefined\<close>: both a missing key and \<^verbatim>\<open>null\<close> give \<^verbatim>\<open>undefined\<close>.\<close>

definition nullish :: "dueJson option \<Rightarrow> dueJson option" where
  "nullish d = (case d of None \<Rightarrow> None | Some DueNull \<Rightarrow> None | Some (DueAt t) \<Rightarrow> Some (DueAt t))"

definition asCardState :: "Snapshot option \<Rightarrow> CardState option" where
  "asCardState v =
     (case v of
        None \<Rightarrow> None
      | Some s \<Rightarrow>
          (case s_id s of
             None \<Rightarrow> None
           | Some i \<Rightarrow>
               (case s_boardId s of
                  None \<Rightarrow> None
                | Some b \<Rightarrow>
                    (case s_listId s of
                       None \<Rightarrow> None
                     | Some l \<Rightarrow>
                         Some \<lparr>cs_id = i, cs_boardId = b, cs_listId = l, cs_title = s_title s,
                               cs_description = s_description s, cs_dueAt = nullish (s_dueAt s),
                               cs_position = s_position s\<rparr>))))"

definition asCardPatch :: "Snapshot option \<Rightarrow> CardPatch option" where
  "asCardPatch v =
     (case v of
        None \<Rightarrow> None
      | Some s \<Rightarrow>
          let patch = \<lparr>cp_listId = s_listId s, cp_title = s_title s,
                       cp_description = s_description s, cp_dueAt = nullish (s_dueAt s),
                       cp_position = s_position s\<rparr>
          in if cp_listId patch = None \<and> cp_title patch = None \<and> cp_description patch = None
                \<and> cp_dueAt patch = None \<and> cp_position patch = None
             then None else Some patch)"

text \<open>\<^verbatim>\<open>beforeState satisfies CardPatch\<close>: a card state read as a patch.\<close>

definition stateAsPatch :: "CardState \<Rightarrow> CardPatch" where
  "stateAsPatch st = \<lparr>cp_listId = Some (cs_listId st), cp_title = cs_title st,
     cp_description = cs_description st, cp_dueAt = cs_dueAt st,
     cp_position = cs_position st\<rparr>"

text \<open>
  The \<^verbatim>\<open>updateData\<close> built from the patch, as a function on the row:
  \<^verbatim>\<open>listId\<close> is taken when truthy (a non-empty string), the other fields when
  they are not \<^verbatim>\<open>undefined\<close>.
\<close>

definition applyPatch :: "CardPatch \<Rightarrow> Card \<Rightarrow> Card" where
  "applyPatch p c =
     c\<lparr>c_listId := (case cp_listId p of None \<Rightarrow> c_listId c
                     | Some l \<Rightarrow> if l = [] then c_listId c else l),
       c_position := (case cp_position p of None \<Rightarrow> c_position c | Some x \<Rightarrow> x),
       c_title := (case cp_title p of None \<Rightarrow> c_title c | Some t \<Rightarrow> t),
       c_description := (case cp_description p of None \<Rightarrow> c_description c | Some d \<Rightarrow> d),
       c_dueAt := (case cp_dueAt p of None \<Rightarrow> c_dueAt c | Some DueNull \<Rightarrow> None
                   | Some (DueAt t) \<Rightarrow> Some t)\<rparr>"

text \<open>The row recreated from the snapshot of a deleted card, with the handler's defaults.\<close>

definition restoredCard :: "CardState \<Rightarrow> Card" where
  "restoredCard st =
     \<lparr>c_id = cs_id st, c_boardId = cs_boardId st, c_listId = cs_listId st,
      c_title = (case cs_title st of None \<Rightarrow> ''Untitled'' | Some t \<Rightarrow> t),
      c_description = (case cs_description st of None \<Rightarrow> [] | Some d \<Rightarrow> d),
      c_dueAt = (case cs_dueAt st of None \<Rightarrow> None | Some DueNull \<Rightarrow> None
                 | Some (DueAt t) \<Rightarrow> Some t),
      c_position = (case cs_position st of None \<Rightarrow> 0 | Some x \<Rightarrow> x)\<rparr>"

datatype UndoResult =
    AlreadyUndone
  | UndoDeleted ident
  | UndoReverted Card
  | UndoRestored Card

text \<open>
  The idempotency query: a \<^verbatim>\<open>card.undone\<close> event of the same board whose payload
  \<^verbatim>\<open>revertedEventId\<close> is the event's id.
\<close>

definition alreadyUndone :: "Db \<Rightarrow> ActivityEvent \<Rightarrow> bool" where
  "alreadyUndone db event =
     (find (\<lambda>u. ev_boardId u = ev_boardId event \<and> ev_type u = CardUndone
                \<and> ev_revertedEventId u = Some (ev_id event)) (events db) \<noteq> None)"

definition undoneEvent ::
  "Env \<Rightarrow> Actor \<Rightarrow> ActivityEvent \<Rightarrow> Snapshot option \<Rightarrow> Snapshot option \<Rightarrow> ActivityEvent" where
  "undoneEvent env actor event bef aft =
     newEvent env 0 actor (ev_boardId event) CARD (ev_entityId event) CardUndone
       (Some (ev_id event)) bef aft"

definition undoCreated ::
  "Env \<Rightarrow> Actor \<Rightarrow> ActivityEvent \<Rightarrow> Db \<Rightarrow> (Failure + UndoResult) \<times> Db" where
  "undoCreated env actor event db =
     (case findCard db (ev_entityId event) of
        None \<Rightarrow> (Inl NotFound, db)
      | Some existing \<Rightarrow>
          commit db (UndoDeleted (ev_entityId event))
            (Option.bind (deleteCardRow (ev_entityId event) db) (\<lambda>d1.
             Option.bind
               (insertEvent (undoneEvent env actor event (Some (cardSnapshot existing)) None) d1)
               (touchBoard env (ev_boardId event)))))"

definition undoReverted ::
  "Env \<Rightarrow> Actor \<Rightarrow> ActivityEvent \<Rightarrow> CardPatch option \<Rightarrow> Db
     \<Rightarrow> (Failure + UndoResult) \<times> Db" where
  "undoReverted env actor event beforePatch db =
     (case beforePatch of
        None \<Rightarrow> (Inl InvalidData, db)
      | Some patch \<Rightarrow>
          (case findCard db (ev_entityId event) of
             None \<Rightarrow> (Inl NotFound, db)
           | Some current \<Rightarrow>
               let updated = applyPatch patch current
               in commit db (UndoReverted updated)
                    (Option.bind (updateCardRow (ev_entityId event) (applyPatch patch) db) (\<lambda>d1.
                     Option.bind
                       (insertEvent (undoneEvent env actor event (Some (cardSnapshot current))
                          (Some (cardSnapshot updated))) d1)
                       (touchBoard env (ev_boardId event))))))"

definition undoDeleted ::
  "Env \<Rightarrow> Actor \<Rightarrow> ActivityEvent \<Rightarrow> CardState option \<Rightarrow> Db
     \<Rightarrow> (Failure + UndoResult) \<times> Db" where
  "undoDeleted env actor event beforeState db =
     (case beforeState of
        None \<Rightarrow> (Inl InvalidData, db)
      | Some st \<Rightarrow>
          if (case findList db (cs_listId st) of
                None \<Rightarrow> True
              | Some l \<Rightarrow> l_boardId l \<noteq> cs_boardId st)
          then (Inl Unsupported, db)
          else if findCard db (cs_id st) \<noteq> None then (Inr AlreadyUndone, db)
          else
            let created = restoredCard st
            in commit db (UndoRestored created)
                 (Option.bind (insertCard created db) (\<lambda>d1.
                  Option.bind
                    (insertEvent (undoneEvent env actor event None (Some (cardSnapshot created))) d1)
                    (touchBoard env (ev_boardId event)))))"

definition undo ::
  "Env \<Rightarrow> Actor \<Rightarrow> ident \<Rightarrow> Db \<Rightarrow> (Failure + UndoResult) \<times> Db" where
  "undo env actor eventId db =
     (if \<not> validId eventId then (Inl BadRequest, db)
      else case findEvent db eventId of
        None \<Rightarrow> (Inl NotFound, db)
      | Some event \<Rightarrow>
          if alreadyUndone db event then (Inr AlreadyUndone, db)
          else if ev_entityType event \<noteq> CARD then (Inl Unsupported, db)
          else
            let beforeState = asCardState (ev_before event);
                beforePatch = (case beforeState of
                                 Some st \<Rightarrow> Some (stateAsPatch st)
                               | None \<Rightarrow> asCardPatch (ev_before event))
            in if ev_type event = CardCreated then undoCreated env actor event db
               else if ev_type event = CardMoved \<or> ev_type event = CardUpdated
               then undoReverted env actor event beforePatch db
               else if ev_type event = CardDeleted
               then undoDeleted env actor event beforeState db
               else (Inl Unsupported, db))"

subsection \<open>Realtime notifier (\<^verbatim>\<open>src/unnamed/part_013\<close>, imported as \<^verbatim>\<open>@/lib/realtime\<close>)\<close>

text \<open>
  A subscriber is a callback; calling it either returns or throws, and either way it may
  have changed the world outside the registry (for the stream route, the bytes enqueued
  on its connection). A callback is identified by \<open>sub_key\<close>, which stands for the
  identity of the function object in the \<^verbatim>\<open>Set\<close>. The registry maps a board id to
  its subscribers, in insertion order and without repetition. Callbacks do not reach the
  registry: the only one the sources subscribe is the stream route's sender.
\<close>

record 'p BoardEvent =
  be_boardId :: ident
  be_type :: string
  be_at :: time
  be_payload :: "'p option"

datatype 'w Outcome = Returns 'w | Throws 'w

record ('p, 'w) Subscriber =
  sub_key :: nat
  sub_run :: "'p BoardEvent \<Rightarrow> 'w \<Rightarrow> 'w Outcome"

type_synonym ('p, 'w) Registry = "ident \<rightharpoonup> ('p, 'w) Subscriber list"

definition setAdd :: "('p, 'w) Subscriber \<Rightarrow> ('p, 'w) Subscriber list \<Rightarrow> ('p, 'w) Subscriber list" where
  "setAdd cb subs = (if sub_key cb \<in> set (map sub_key subs) then subs else subs @ [cb])"

definition setDelete :: "('p, 'w) Subscriber \<Rightarrow> ('p, 'w) Subscriber list \<Rightarrow> ('p, 'w) Subscriber list" where
  "setDelete cb subs = filter (\<lambda>s. sub_key s \<noteq> sub_key cb) subs"

definition subscribeToBoard ::
  "ident \<Rightarrow> ('p, 'w) Subscriber \<Rightarrow> ('p, 'w) Registry \<Rightarrow> ('p, 'w) Registry" where
  "subscribeToBoard boardId cb reg =
     reg(boardId \<mapsto> setAdd cb (case reg boardId of None \<Rightarrow> [] | Some subs \<Rightarrow> subs))"

text \<open>The closure that \<^verbatim>\<open>subscribeToBoard\<close> returns.\<close>

definition unsubscribe ::
  "ident \<Rightarrow> ('p, 'w) Subscriber \<Rightarrow> ('p, 'w) Registry \<Rightarrow> ('p, 'w) Registry" where
  "unsubscribe boardId cb reg =
     (case reg boardId of
        None \<Rightarrow> reg
      | Some current \<Rightarrow>
          if setDelete cb current = [] then reg(boardId := None)
          else reg(boardId \<mapsto> setDelete cb current))"

text \<open>
  The body of the loop, \<^verbatim>\<open>try { cb(event) } catch { }\<close>: the call is recorded in
  the list of calls made, and a throw is caught. The loop itself would stop at a body
  that throws.
\<close>

definition tryCall ::
  "'p BoardEvent \<Rightarrow> ('p, 'w) Subscriber \<Rightarrow> nat list \<times> 'w \<Rightarrow> (nat list \<times> 'w) Outcome" where
  "tryCall event cb st =
     (case sub_run cb event (snd st) of
        Returns w \<Rightarrow> Returns (fst st @ [sub_key cb], w)
      | Throws w \<Rightarrow> Returns (fst st @ [sub_key cb], w))"

fun forEach :: "('a \<Rightarrow> 's \<Rightarrow> 's Outcome) \<Rightarrow> 'a list \<Rightarrow> 's \<Rightarrow> 's Outcome" where
  "forEach body [] st = Returns st"
| "forEach body (x # xs) st =
     (case body x st of Throws st' \<Rightarrow> Throws st' | Returns st' \<Rightarrow> forEach body xs st')"

text \<open>
  \<^verbatim>\<open>publishBoardEvent\<close> returns the registry as it leaves it, and how the call ended:
  the calls made (in order) and the world after them.
\<close>

definition publishBoardEvent ::
  "time \<Rightarrow> ident \<Rightarrow> string \<Rightarrow> 'p option \<Rightarrow> ('p, 'w) Registry \<Rightarrow> 'w
     \<Rightarrow> ('p, 'w) Registry \<times> (nat list \<times> 'w) Outcome" where
  "publishBoardEvent atTime boardId type payload reg w =
     (case reg boardId of
        None \<Rightarrow> (reg, Returns ([], w))
      | Some subs \<Rightarrow>
          if subs = [] then (reg, Returns ([], w))
          else
            let event = \<lparr>be_boardId = boardId, be_type = type, be_at = atTime,
                         be_payload = payload\<rparr>
            in (reg, forEach (tryCall event) subs ([], w)))"

subsection \<open>A worked scenario\<close>

text \<open>
  The scenario of the spec, run through the handlers: the board ``Sprint'' is created
  (its lists Todo, Doing and Done get the identifiers \<open>b+\<close>, \<open>b++\<close> and
  \<open>b+++\<close>), then the card ``Fix bug'' is created in Todo. The \<open>k\<close>-th row a
  request creates is named by the request's tag followed by \<open>k\<close> plus signs.
\<close>

definition demoActor :: Actor where
  "demoActor = \<lparr>actorUserId = None, actorName = ''Ann'', actorClientId = ''client-a''\<rparr>"

definition demoEnv :: "string \<Rightarrow> time \<Rightarrow> Env" where
  "demoEnv tag t = \<lparr>clock = t, dbClock = t, newId = (\<lambda>k. tag @ replicate k (CHR ''+''))\<rparr>"

definition emptyDb :: Db where
  "emptyDb = \<lparr>boards = [], lists = [], cards = [], events = []\<rparr>"

definition sprintDb :: Db where
  "sprintDb =
     snd (createCard (demoEnv ''c'' 2) demoActor ''b'' ''b+'' ''Fix bug'' None None
       (snd (createBoard (demoEnv ''b'' 1) demoActor (Some ''Sprint'') emptyDb)))"

text \<open>
  The scenario continued: the card is moved to Doing with no neighbours (event \<open>m\<close>);
  then either its title is edited (event \<open>e\<close>) and the move is undone (event
  \<open>u\<close>), or it is deleted (event \<open>d\<close>).
\<close>

definition movedDb :: Db where
  "movedDb = snd (moveCard (demoEnv ''m'' 3) demoActor ''c'' ''b++'' None None sprintDb)"

definition editedDb :: Db where
  "editedDb = snd (updateCard (demoEnv ''e'' 4) demoActor ''c''
     \<lparr>u_title = Some ''Fix bug now'', u_description = None, u_dueAt = None\<rparr> movedDb)"

definition undoneDb :: Db where
  "undoneDb = snd (undo (demoEnv ''u'' 5) demoActor ''m'' editedDb)"

definition deletedDb :: Db where
  "deletedDb = snd (deleteCard (demoEnv ''d'' 4) demoActor ''c'' movedDb)"

definition movedCard :: Card where
  "movedCard = \<lparr>c_id = ''c'', c_boardId = ''b'', c_listId = ''b++'', c_title = ''Fix bug'',
     c_description = [], c_dueAt = None, c_position = 0\<rparr>"

definition movedEvent :: ActivityEvent where
  "movedEvent = newEvent (demoEnv ''m'' 3) 0 demoActor ''b'' CARD ''c'' CardMoved None
     (Some (movedSnapshot ''b+'' 1)) (Some (movedSnapshot ''b++'' 0))"

definition deletedEvent :: ActivityEvent where
  "deletedEvent = newEvent (demoEnv ''d'' 4) 0 demoActor ''b'' CARD ''c'' CardDeleted None
     (Some (cardSnapshot movedCard)) None"

text \<open>
  Another continuation of the scenario after the card's creation: the card, which has no
  due date, is given one (event \<open>f\<close>, a \<^verbatim>\<open>PATCH\<close> with
  \<^verbatim>\<open>dueAt\<close> only); undoing that edit is the request \<open>g\<close>.
\<close>

definition dueDb :: Db where
  "dueDb = snd (updateCard (demoEnv ''f'' 3) demoActor ''c''
     \<lparr>u_title = None, u_description = None, u_dueAt = Some (DueAt 100)\<rparr> sprintDb)"

text \<open>
  A second actor, the clearing of the activity by the first one (event \<open>x\<close>), and a
  card created afterwards by the second (event \<open>k+\<close>).
\<close>

definition otherActor :: Actor where
  "otherActor = \<lparr>actorUserId = None, actorName = ''Bob'', actorClientId = ''client-b''\<rparr>"

definition clearedDb :: Db where
  "clearedDb = snd (clearActivity (demoEnv ''x'' 5) demoActor ''b'' editedDb)"

definition laterDb :: Db where
  "laterDb = snd (createCard (demoEnv ''k'' 6) otherActor ''b'' ''b+'' ''Write tests'' None None
     clearedDb)"

text \<open>
  Two subscribers of one board: the first throws whenever it is called, the second
  records the type of the event it is given.
\<close>

definition thrower :: "(unit, string list) Subscriber" where
  "thrower = \<lparr>sub_key = 1, sub_run = (\<lambda>event w. Throws w)\<rparr>"

definition sender :: "(unit, string list) Subscriber" where
  "sender = \<lparr>sub_key = 2, sub_run = (\<lambda>event w. Returns (w @ [be_type event]))\<rparr>"

definition demoRegistry :: "(unit, string list) Registry" where
  "demoRegistry = subscribeToBoard ''b'' sender (subscribeToBoard ''b'' thrower Map.empty)"

section \<open>Properties\<close>

subsection \<open>Position allocator\<close>


text \<open>
  The rounding: \<open>binade\<close> is the binary exponent, \<open>toDouble x\<close> is within half a
  unit in the last place of \<open>x\<close>, and an integer of magnitude below \<open>2 ^ 53\<close> is a
  double. For integer positions in that range the branches of
  \<^verbatim>\<open>positionBetween\<close> with a null argument, which the model computes exactly,
  are therefore what double arithmetic gives.
\<close>

lemma roundHalfEven_int: "roundHalfEven (of_int k) = k"
  by (simp add: roundHalfEven_def)

lemma roundHalfEven_near: "\<bar>of_int (roundHalfEven q) - q\<bar> \<le> 1 / 2"
  unfolding roundHalfEven_def Let_def by (auto simp: abs_if) linarith+

lemma bitlen_pos: "0 < n \<Longrightarrow> 0 < bitlen n"
  using bitlen_eq_zero_iff [of n] bitlen_nonneg [of n] by linarith

lemma bitlen_real_bounds:
  assumes "0 < n"
  shows "(2::real) powi (bitlen n - 1) \<le> of_int n \<and> of_int n + 1 \<le> (2::real) powi bitlen n"
proof -
  from bitlen_bounds [OF assms] have b: "2 ^ nat (bitlen n - 1) \<le> n" "n + 1 \<le> 2 ^ nat (bitlen n)"
    by auto
  have p: "0 < bitlen n" using assms by (rule bitlen_pos)
  have "real_of_int (2 ^ nat (bitlen n - 1)) \<le> real_of_int n"
    using b(1) by (simp only: of_int_le_iff)
  then have l: "(2::real) ^ nat (bitlen n - 1) \<le> of_int n" by simp
  have "real_of_int (n + 1) \<le> real_of_int (2 ^ nat (bitlen n))"
    using b(2) by (simp only: of_int_le_iff)
  then have u: "of_int n + 1 \<le> (2::real) ^ nat (bitlen n)" by simp
  from l u p show ?thesis by (simp add: power_int_def)
qed

lemma binade_bounds:
  assumes "x \<noteq> 0"
  shows "2 powi binade x \<le> \<bar>x\<bar> \<and> \<bar>x\<bar> < 2 powi (binade x + 1)"
proof (cases "1 \<le> \<bar>x\<bar>")
  case True
  define n where "n = \<lfloor>\<bar>x\<bar>\<rfloor>"
  have n: "0 < n" "real_of_int n \<le> \<bar>x\<bar>" "\<bar>x\<bar> < real_of_int n + 1"
    using True unfolding n_def by linarith+
  from bitlen_real_bounds [OF n(1)] n(2,3)
  have "2 powi (bitlen n - 1) \<le> \<bar>x\<bar>" "\<bar>x\<bar> < 2 powi bitlen n" by linarith+
  then show ?thesis using True by (simp add: binade_def n_def)
next
  case False
  define y where "y = 1 / \<bar>x\<bar>"
  define m where "m = \<lceil>y\<rceil> - 1"
  have y1: "1 < y" using False assms by (simp add: y_def)
  have m: "0 < m" "real_of_int m < y" "y \<le> real_of_int m + 1"
    using y1 unfolding m_def by linarith+
  from bitlen_real_bounds [OF m(1)] m(2,3)
  have yl: "2 powi (bitlen m - 1) < y" and yu: "y \<le> 2 powi bitlen m" by linarith+
  have x: "\<bar>x\<bar> = 1 / y" "0 < y" using assms y1 by (simp_all add: y_def)
  have "1 / (2 powi bitlen m) \<le> 1 / y"
    using yu x(2) by (intro divide_left_mono) simp_all
  moreover have "1 / ((2::real) powi bitlen m) = 2 powi (- bitlen m)"
    by (simp add: power_int_minus divide_inverse)
  ultimately have lo: "2 powi (- bitlen m) \<le> \<bar>x\<bar>" by (simp only: x(1))
  have "1 / y < 1 / (2 powi (bitlen m - 1))"
    using yl x(2) by (intro divide_strict_left_mono) simp_all
  moreover have "1 / ((2::real) powi (bitlen m - 1)) = 2 powi (- (bitlen m - 1))"
    by (simp only: power_int_minus divide_inverse mult_1)
  ultimately have "\<bar>x\<bar> < 2 powi (- (bitlen m - 1))" by (simp only: x(1))
  then have hi: "\<bar>x\<bar> < 2 powi (- bitlen m + 1)" by simp
  from lo hi show ?thesis using False by (simp add: binade_def m_def y_def)
qed

lemma toDouble_near:
  "\<bar>toDouble x - x\<bar> \<le> 2 powi (binade x - 53)"
proof (cases "x = 0")
  case True then show ?thesis by (simp add: toDouble_def)
next
  case False
  define u :: real where "u = 2 powi (binade x - 52)"
  define a :: real where "a = of_int (roundHalfEven (x / u))"
  have u: "0 < u" by (simp add: u_def)
  have "\<bar>a - x / u\<bar> \<le> 1 / 2" unfolding a_def by (rule roundHalfEven_near)
  then have "\<bar>a - x / u\<bar> * u \<le> 1 / 2 * u"
    using u by (intro mult_right_mono) simp_all
  moreover have "\<bar>a - x / u\<bar> * u = \<bar>a * u - x\<bar>"
  proof -
    have "\<bar>a - x / u\<bar> * u = \<bar>(a - x / u) * u\<bar>"
      using u by (simp add: abs_mult)
    also have "(a - x / u) * u = a * u - x"
      using u by (simp add: field_simps)
    finally show ?thesis .
  qed
  moreover have "1 / 2 * u = 2 powi (binade x - 53)"
    unfolding u_def by (simp add: power_int_diff)
  moreover have "toDouble x = a * u"
    using False by (simp add: toDouble_def u_def a_def)
  ultimately show ?thesis by (simp only:)
qed

lemma toDouble_of_int:
  assumes "\<bar>k\<bar> < 2 ^ 53"
  shows "toDouble (of_int k) = of_int k"
proof (cases "k = 0")
  case True then show ?thesis by (simp add: toDouble_def)
next
  case False
  define e where "e = binade (of_int k)"
  have k1: "1 \<le> \<bar>real_of_int k\<bar>" using False by (simp flip: of_int_abs)
  then have "0 < \<lfloor>\<bar>real_of_int k\<bar>\<rfloor>" by linarith
  then have "0 < bitlen \<lfloor>\<bar>real_of_int k\<bar>\<rfloor>" by (rule bitlen_pos)
  then have e0: "0 \<le> e" using k1 unfolding e_def binade_def by simp
  from binade_bounds [of "of_int k"] False have "2 powi e \<le> \<bar>real_of_int k\<bar>"
    by (simp add: e_def)
  also have "\<bar>real_of_int k\<bar> < 2 ^ 53" using assms by (simp flip: of_int_abs)
  finally have "(2::real) powi e < 2 powi 53" by simp
  then have "e < 53" by (rule power_int_le_imp_less_exp [rotated]) simp_all
  then have e52: "e \<le> 52" by simp
  define d where "d = nat (52 - e)"
  have "e - 52 = - int d" using e52 by (simp add: d_def)
  then have u: "(2::real) powi (e - 52) = inverse (2 ^ d)"
    by (simp only: power_int_minus power_int_of_nat)
  have "real_of_int k / 2 powi (e - 52) = of_int (k * 2 ^ d)"
    unfolding u by (simp add: field_simps)
  then have "roundHalfEven (real_of_int k / 2 powi (e - 52)) = k * 2 ^ d"
    by (simp only: roundHalfEven_int)
  moreover have "real_of_int (k * 2 ^ d) * 2 powi (e - 52) = of_int k"
    unfolding u by (simp add: field_simps)
  ultimately show ?thesis using False by (simp add: toDouble_def e_def)
qed

lemma positionBetween_null_integer:
  assumes "\<bar>k\<bar> < 2 ^ 53 - 1"
  shows "positionBetween None (Some (of_int k)) = toDouble (of_int k - 1)"
    and "positionBetween (Some (of_int k)) None = toDouble (of_int k + 1)"
proof -
  have "\<bar>k - 1\<bar> < 2 ^ 53" "\<bar>k + 1\<bar> < 2 ^ 53" using assms by linarith+
  then have "toDouble (of_int (k - 1)) = of_int (k - 1)" "toDouble (of_int (k + 1)) = of_int (k + 1)"
    by (simp_all only: toDouble_of_int)
  then show "positionBetween None (Some (of_int k)) = toDouble (of_int k - 1)"
    and "positionBetween (Some (of_int k)) None = toDouble (of_int k + 1)"
    by (simp_all add: positionBetween_def)
qed

lemma toDouble_examples:
  "toDouble 3 = 3" "toDouble 1.5 = 1.5"
  "toDouble 1.00005 = 4503824807351865 / 4503599627370496"
  "toDouble 1.0001 = 4504049987333233 / 4503599627370496"
  "toDouble (1 + 1 / 2 ^ 53) = 1" "toDouble (1 + 3 / 2 ^ 53) = 1 + 1 / 2 ^ 51"
  "toDouble (- 0.3) = - toDouble 0.3"
  by code_simp+



subsection \<open>The storage layer\<close>

lemma commit_Inl:
  "commit db r x = (Inl f, db') \<Longrightarrow> db' = db \<and> f = StorageFailure \<and> x = None"
  by (auto simp: commit_def split: option.splits)

lemma commit_Inr: "commit db r x = (Inr r', db') \<Longrightarrow> x = Some db' \<and> r' = r"
  by (auto simp: commit_def split: option.splits)

lemma insertEvent_Some:
  "insertEvent e db = Some d \<Longrightarrow> d = db\<lparr>events := events db @ [e]\<rparr>"
  by (auto simp: insertEvent_def split: if_splits)

lemma insertCard_Some:
  "insertCard c db = Some d \<Longrightarrow> d = db\<lparr>cards := cards db @ [c]\<rparr>"
  by (auto simp: insertCard_def split: if_splits)

lemma insertList_Some:
  "insertList l db = Some d \<Longrightarrow> d = db\<lparr>lists := lists db @ [l]\<rparr>"
  by (auto simp: insertList_def split: if_splits)

lemma insertBoard_Some:
  "insertBoard b db = Some d \<Longrightarrow> d = db\<lparr>boards := boards db @ [b]\<rparr>"
  by (auto simp: insertBoard_def split: if_splits)

lemma updateBoard_Some:
  "updateBoard i f db = Some d \<Longrightarrow>
     d = db\<lparr>boards := map (\<lambda>b. if b_id b = i then f b else b) (boards db)\<rparr>"
  by (auto simp: updateBoard_def split: if_splits)

lemma touchBoard_Some:
  "touchBoard env i db = Some d \<Longrightarrow>
     events d = events db \<and> cards d = cards db \<and> lists d = lists db"
  by (auto simp: touchBoard_def dest!: updateBoard_Some)

lemma updateList_Some:
  "updateList i f db = Some d \<Longrightarrow>
     d = db\<lparr>lists := map (\<lambda>l. if l_id l = i then f l else l) (lists db)\<rparr>"
  by (auto simp: updateList_def split: if_splits)

lemma updateCardRow_Some:
  "updateCardRow i f db = Some d \<Longrightarrow>
     d = db\<lparr>cards := map (\<lambda>c. if c_id c = i then f c else c) (cards db)\<rparr>"
  by (auto simp: updateCardRow_def split: if_splits option.splits)

lemma deleteCardRow_Some:
  "deleteCardRow i db = Some d \<Longrightarrow> d = db\<lparr>cards := filter (\<lambda>c. c_id c \<noteq> i) (cards db)\<rparr>"
  by (auto simp: deleteCardRow_def split: if_splits)

lemma deleteListRow_Some:
  "deleteListRow i db = Some d \<Longrightarrow> events d = events db \<and> boards d = boards db"
  by (auto simp: deleteListRow_def split: if_splits)


lemma find_map_update:
  assumes "\<And>c. key (f c) = key c"
  shows "find (\<lambda>c. key c = i) (map (\<lambda>c. if key c = i then f c else c) cs)
         = map_option f (find (\<lambda>c. key c = i) cs)"
  using assms by (induction cs) auto






subsection \<open>The scenario\<close>


subsection \<open>Moving a card\<close>












subsection \<open>Undo\<close>

lemma findEvent_id: "findEvent db i = Some e \<Longrightarrow> ev_id e = i"
  by (auto simp: findEvent_def find_Some_iff)

lemma find_prefix: "find P xs = Some x \<Longrightarrow> find P (xs @ ys) = Some x"
  by (induction xs) (auto split: if_splits)

lemma findEvent_append:
  "findEvent db i = Some e \<Longrightarrow> events db' = events db @ es \<Longrightarrow> findEvent db' i = Some e"
  by (simp add: findEvent_def find_prefix)

lemma alreadyUndone_iff:
  "alreadyUndone db event \<longleftrightarrow>
     (\<exists>u \<in> set (events db). ev_boardId u = ev_boardId event \<and> ev_type u = CardUndone
        \<and> ev_revertedEventId u = Some (ev_id event))"
  by (auto simp: alreadyUndone_def find_None_iff)

lemma undoCreated_Inr:
  assumes "undoCreated env actor event db = (Inr r, db')"
  shows "\<exists>bef aft. events db' = events db @ [undoneEvent env actor event bef aft]"
  using assms unfolding undoCreated_def
  by (auto split: option.splits dest!: commit_Inr simp: bind_eq_Some_conv
      dest!: deleteCardRow_Some insertEvent_Some touchBoard_Some) blast

lemma undoReverted_Inr:
  assumes "undoReverted env actor event p db = (Inr r, db')"
  shows "\<exists>bef aft. events db' = events db @ [undoneEvent env actor event bef aft]"
  using assms unfolding undoReverted_def Let_def
  by (auto split: option.splits dest!: commit_Inr simp: bind_eq_Some_conv
      dest!: updateCardRow_Some insertEvent_Some touchBoard_Some) blast

lemma undoDeleted_Inr:
  assumes "undoDeleted env actor event st db = (Inr r, db')"
  shows "(r = AlreadyUndone \<and> db' = db)
     \<or> (r \<noteq> AlreadyUndone \<and> (\<exists>bef aft. events db' = events db @ [undoneEvent env actor event bef aft]))"
  using assms unfolding undoDeleted_def Let_def
  by (auto split: option.splits if_splits dest!: commit_Inr simp: bind_eq_Some_conv
      dest!: insertCard_Some insertEvent_Some touchBoard_Some) blast+

lemma undoCreated_not_noop: "undoCreated env actor event db \<noteq> (Inr AlreadyUndone, db')"
  unfolding undoCreated_def by (auto simp: commit_def split: option.splits)

lemma undoReverted_not_noop: "undoReverted env actor event p db \<noteq> (Inr AlreadyUndone, db')"
  unfolding undoReverted_def Let_def by (auto simp: commit_def split: option.splits)

lemma undoDeleted_noop:
  assumes "undoDeleted env actor event st db = (Inr AlreadyUndone, db')"
  shows "db' = db \<and> undoDeleted env2 actor2 event st db = (Inr AlreadyUndone, db)"
  using assms unfolding undoDeleted_def Let_def
  by (auto simp: commit_def split: option.splits if_splits)

lemma undo_noop:
  assumes "undo env actor eventId db = (Inr AlreadyUndone, db')"
  shows "db' = db \<and> undo env2 actor2 eventId db = (Inr AlreadyUndone, db)"
proof (cases "findEvent db eventId")
  case None
  with assms show ?thesis by (simp add: undo_def split: if_splits)
next
  case (Some event)
  show ?thesis
  proof (cases "alreadyUndone db event")
    case True
    with assms Some show ?thesis by (simp add: undo_def split: if_splits)
  next
    case False
    with assms Some undoDeleted_noop [of env actor event _ db db' env2 actor2]
    show ?thesis
      unfolding undo_def Let_def
      by (auto split: if_splits simp: undoCreated_not_noop undoReverted_not_noop)
  qed
qed

lemma undo_mutation:
  assumes "undo env actor eventId db = (Inr r, db')" "r \<noteq> AlreadyUndone"
  shows "\<exists>event bef aft. findEvent db eventId = Some event \<and> validId eventId
           \<and> events db' = events db @ [undoneEvent env actor event bef aft]"
proof (cases "findEvent db eventId")
  case None
  with assms show ?thesis by (simp add: undo_def split: if_splits)
next
  case (Some event)
  with assms undoCreated_Inr [of env actor event db r db']
    undoReverted_Inr [of env actor event _ db r db']
    undoDeleted_Inr [of env actor event _ db r db']
  show ?thesis
    unfolding undo_def Let_def
    by (auto split: if_splits)
qed

lemma undoneEvent_marks:
  "ev_type (undoneEvent env actor event bef aft) = CardUndone
   \<and> ev_boardId (undoneEvent env actor event bef aft) = ev_boardId event
   \<and> ev_revertedEventId (undoneEvent env actor event bef aft) = Some (ev_id event)"
  by (simp add: undoneEvent_def newEvent_def)

lemma undo_marked:
  assumes "validId eventId" "findEvent db eventId = Some event" "alreadyUndone db event"
  shows "undo env actor eventId db = (Inr AlreadyUndone, db)"
  using assms by (simp add: undo_def)

text \<open>
  C1. Undo is idempotent per event id. If a \<^verbatim>\<open>card.undone\<close> event of the event's
  board whose payload \<^verbatim>\<open>revertedEventId\<close> is the event's id exists (undo writes
  exactly such an event, with the board id of the event it reverts), an undo request for
  that id returns the \<^verbatim>\<open>alreadyUndone\<close> no-op success and leaves boards, lists,
  cards and the activity log unchanged. And after any undo request for an event id that
  succeeded, a further undo request for the same id, by whatever actor, returns
  \<^verbatim>\<open>alreadyUndone\<close> and changes nothing; a successful undo that is not itself a
  no-op appended exactly one \<^verbatim>\<open>card.undone\<close> event referring to that id.
\<close>

theorem undo_idempotent:
  "(validId eventId \<and> findEvent db eventId = Some event
      \<and> (\<exists>u \<in> set (events db). ev_type u = CardUndone \<and> ev_boardId u = ev_boardId event
             \<and> ev_revertedEventId u = Some (ev_id event))
      \<longrightarrow> undo env actor eventId db = (Inr AlreadyUndone, db))
   \<and> (undo env actor eventId db = (Inr r, db')
      \<longrightarrow> undo env2 actor2 eventId db' = (Inr AlreadyUndone, db')
          \<and> (r = AlreadyUndone \<longrightarrow> db' = db)
          \<and> (r \<noteq> AlreadyUndone \<longrightarrow>
               (\<exists>u. events db' = events db @ [u] \<and> ev_type u = CardUndone
                  \<and> ev_revertedEventId u = Some eventId)))"
proof (intro conjI impI)
  assume "validId eventId \<and> findEvent db eventId = Some event
      \<and> (\<exists>u \<in> set (events db). ev_type u = CardUndone \<and> ev_boardId u = ev_boardId event
             \<and> ev_revertedEventId u = Some (ev_id event))"
  then show "undo env actor eventId db = (Inr AlreadyUndone, db)"
    using undo_marked [of eventId db event env actor] by (auto simp: alreadyUndone_iff)
next
  assume u: "undo env actor eventId db = (Inr r, db')"
  show "undo env2 actor2 eventId db' = (Inr AlreadyUndone, db')"
  proof (cases "r = AlreadyUndone")
    case True
    with u undo_noop [of env actor eventId db db' env2 actor2] show ?thesis by simp
  next
    case False
    from undo_mutation [OF u False] obtain event bef aft where
      e: "findEvent db eventId = Some event" and v: "validId eventId"
      and es: "events db' = events db @ [undoneEvent env actor event bef aft]"
      by blast
    from findEvent_append [OF e es] have e': "findEvent db' eventId = Some event" .
    have "alreadyUndone db' event"
      unfolding alreadyUndone_iff es using undoneEvent_marks [of env actor event bef aft]
      by auto
    with v e' show ?thesis by (rule undo_marked)
  qed
  show "db' = db" if "r = AlreadyUndone"
    using that u undo_noop [of env actor eventId db db' env2 actor2] by simp
  show "\<exists>u. events db' = events db @ [u] \<and> ev_type u = CardUndone
                  \<and> ev_revertedEventId u = Some eventId" if "r \<noteq> AlreadyUndone"
  proof -
    from undo_mutation [OF u that] obtain event bef aft where
      e: "findEvent db eventId = Some event"
      and es: "events db' = events db @ [undoneEvent env actor event bef aft]"
      by blast
    with undoneEvent_marks [of env actor event bef aft] findEvent_id [OF e]
    show ?thesis by auto
  qed
qed

theorem undo_idempotent_witness:
  "undo (demoEnv ''u'' 5) demoActor ''m'' editedDb
     = (Inr (UndoReverted \<lparr>c_id = ''c'', c_boardId = ''b'', c_listId = ''b+'',
          c_title = ''Fix bug now'', c_description = [], c_dueAt = None, c_position = 1\<rparr>),
        undoneDb)
   \<and> undo (demoEnv ''v'' 6) demoActor ''m'' undoneDb = (Inr AlreadyUndone, undoneDb)
   \<and> validId ''m'' \<and> findEvent undoneDb ''m'' = Some movedEvent
   \<and> alreadyUndone undoneDb movedEvent
   \<and> map ev_id (events undoneDb) = map ev_id (events editedDb) @ [''u'']"
proof -
  let ?r = "UndoReverted \<lparr>c_id = ''c'', c_boardId = ''b'', c_listId = ''b+'',
          c_title = ''Fix bug now'', c_description = [], c_dueAt = None, c_position = 1\<rparr>"
  have "fst (undo (demoEnv ''u'' 5) demoActor ''m'' editedDb) = Inr ?r"
    by code_simp
  then have u: "undo (demoEnv ''u'' 5) demoActor ''m'' editedDb = (Inr ?r, undoneDb)"
    by (simp add: undoneDb_def prod_eq_iff)
  have v: "validId ''m''" by code_simp
  have e: "findEvent undoneDb ''m'' = Some movedEvent" by code_simp
  have m: "alreadyUndone undoneDb movedEvent" by code_simp
  have ids: "map ev_id (events undoneDb) = map ev_id (events editedDb) @ [''u'']" by code_simp
  note t = undo_idempotent [of "''m''" editedDb movedEvent "demoEnv ''u'' 5" demoActor ?r undoneDb
      "demoEnv ''v'' 6" demoActor]
  from t [THEN conjunct2] u
  have "undo (demoEnv ''v'' 6) demoActor ''m'' undoneDb = (Inr AlreadyUndone, undoneDb)"
    by blast
  with u v e m ids show ?thesis by (intro conjI)
qed



lemma find_snoc_new: "find P xs = None \<Longrightarrow> P y \<Longrightarrow> find P (xs @ [y]) = Some y"
  by (induction xs) (auto split: if_splits)

lemma asCardState_Some:
  assumes "asCardState v = Some st"
  shows "\<exists>s. v = Some s \<and> s_id s = Some (cs_id st) \<and> s_boardId s = Some (cs_boardId st)
           \<and> s_listId s = Some (cs_listId st) \<and> cs_title st = s_title s
           \<and> cs_description st = s_description s \<and> cs_dueAt st = nullish (s_dueAt s)
           \<and> cs_position st = s_position s"
  using assms by (auto simp: asCardState_def split: option.splits)

lemma restoredCard_of_cardSnapshot:
  assumes "asCardState (Some (cardSnapshot c)) = Some st"
  shows "restoredCard st = c"
  using asCardState_Some [OF assms]
  by (cases "c_dueAt c")
     (auto simp: restoredCard_def cardSnapshot_def emptySnapshot_def nullish_def dueToJson_def)

lemma undo_deleted_branch:
  assumes "validId eventId" "findEvent db eventId = Some event" "\<not> alreadyUndone db event"
    and "ev_entityType event = CARD" "ev_type event = CardDeleted"
  shows "undo env actor eventId db = undoDeleted env actor event (asCardState (ev_before event)) db"
  using assms by (simp add: undo_def Let_def)

lemma undoDeleted_ok:
  assumes "findList db (cs_listId st) = Some l" "l_boardId l = cs_boardId st"
    and "findCard db (cs_id st) = None"
    and "findBoard db (cs_boardId st) \<noteq> None" "findBoard db (ev_boardId event) \<noteq> None"
    and "findEvent db (newId env 0) = None"
  shows "\<exists>db'. undoDeleted env actor event (Some st) db = (Inr (UndoRestored (restoredCard st)), db')
           \<and> cards db' = cards db @ [restoredCard st] \<and> lists db' = lists db
           \<and> boards db' = map (\<lambda>b. if b_id b = ev_boardId event
                                   then b\<lparr>b_updatedAt := clock env\<rparr> else b) (boards db)
           \<and> events db' = events db @ [undoneEvent env actor event None
                                          (Some (cardSnapshot (restoredCard st)))]"
proof -
  let ?c = "restoredCard st"
  let ?ev = "undoneEvent env actor event None (Some (cardSnapshot ?c))"
  have cid: "c_id ?c = cs_id st" "c_boardId ?c = cs_boardId st" "c_listId ?c = cs_listId st"
    by (simp_all add: restoredCard_def)
  have d1: "insertCard ?c db = Some (db\<lparr>cards := cards db @ [?c]\<rparr>)"
    using assms(1,3,4) by (simp add: insertCard_def cid)
  let ?d1 = "db\<lparr>cards := cards db @ [?c]\<rparr>"
  have d2: "insertEvent ?ev ?d1 = Some (?d1\<lparr>events := events ?d1 @ [?ev]\<rparr>)"
    using assms(5,6)
    by (simp add: insertEvent_def undoneEvent_def newEvent_def findEvent_def findBoard_def)
  let ?d2 = "?d1\<lparr>events := events ?d1 @ [?ev]\<rparr>"
  have d3: "touchBoard env (ev_boardId event) ?d2
        = Some (?d2\<lparr>boards := map (\<lambda>b. if b_id b = ev_boardId event
                                   then b\<lparr>b_updatedAt := clock env\<rparr> else b) (boards ?d2)\<rparr>)"
    using assms(5) by (simp add: touchBoard_def updateBoard_def findBoard_def)
  show ?thesis
    unfolding undoDeleted_def Let_def
    using assms(1,2,3) d1 d2 d3 by (simp add: commit_def)
qed

text \<open>
  C5. Undoing a \<^verbatim>\<open>card.deleted\<close> event that has not been undone and whose
  \<^verbatim>\<open>before\<close> snapshot parses as a card state: if the snapshot's list is gone or
  belongs to a different board than the snapshot's, the undo fails as unsupported; if the
  list is fine and a card with the snapshot's id exists, the undo returns
  \<^verbatim>\<open>alreadyUndone\<close> and changes nothing; otherwise (the storage layer accepting the
  writes) the card is recreated with the id, board, list, title, description, due date
  and position recorded in the snapshot, which are the fields the handler reads from
  it, and for the snapshot that deleting a card logs, the recreated card is the
  deleted one.
\<close>

theorem undo_deleted_restores:
  assumes "validId eventId" "findEvent db eventId = Some event" "\<not> alreadyUndone db event"
    and "ev_entityType event = CARD" "ev_type event = CardDeleted"
    and "asCardState (ev_before event) = Some st"
  shows
    "((case findList db (cs_listId st) of None \<Rightarrow> True | Some l \<Rightarrow> l_boardId l \<noteq> cs_boardId st)
        \<longrightarrow> undo env actor eventId db = (Inl Unsupported, db))
     \<and> ((\<exists>l. findList db (cs_listId st) = Some l \<and> l_boardId l = cs_boardId st)
          \<and> findCard db (cs_id st) \<noteq> None
        \<longrightarrow> undo env actor eventId db = (Inr AlreadyUndone, db))
     \<and> ((\<exists>l. findList db (cs_listId st) = Some l \<and> l_boardId l = cs_boardId st)
          \<and> findCard db (cs_id st) = None
          \<and> findBoard db (cs_boardId st) \<noteq> None \<and> findBoard db (ev_boardId event) \<noteq> None
          \<and> findEvent db (newId env 0) = None
        \<longrightarrow> (\<exists>db'. undo env actor eventId db = (Inr (UndoRestored (restoredCard st)), db')
               \<and> cards db' = cards db @ [restoredCard st]
               \<and> findCard db' (cs_id st) = Some (restoredCard st)))
     \<and> (\<exists>s. ev_before event = Some s
           \<and> Some (c_id (restoredCard st)) = s_id s
           \<and> Some (c_boardId (restoredCard st)) = s_boardId s
           \<and> Some (c_listId (restoredCard st)) = s_listId s
           \<and> (\<forall>t. s_title s = Some t \<longrightarrow> c_title (restoredCard st) = t)
           \<and> (\<forall>d. s_description s = Some d \<longrightarrow> c_description (restoredCard st) = d)
           \<and> (\<forall>p. s_position s = Some p \<longrightarrow> c_position (restoredCard st) = p)
           \<and> (s_dueAt s = Some DueNull \<longrightarrow> c_dueAt (restoredCard st) = None)
           \<and> (\<forall>t. s_dueAt s = Some (DueAt t) \<longrightarrow> c_dueAt (restoredCard st) = Some t))
     \<and> (\<forall>c. ev_before event = Some (cardSnapshot c) \<longrightarrow> restoredCard st = c)"
proof -
  note u = undo_deleted_branch [OF assms(1-5), of env actor, unfolded assms(6)]
  have a: "undo env actor eventId db = (Inl Unsupported, db)"
    if "case findList db (cs_listId st) of None \<Rightarrow> True | Some l \<Rightarrow> l_boardId l \<noteq> cs_boardId st"
    using that unfolding u undoDeleted_def by simp
  have b: "undo env actor eventId db = (Inr AlreadyUndone, db)"
    if "(\<exists>l. findList db (cs_listId st) = Some l \<and> l_boardId l = cs_boardId st)
          \<and> findCard db (cs_id st) \<noteq> None"
    using that unfolding u undoDeleted_def by auto
  have c: "\<exists>db'. undo env actor eventId db = (Inr (UndoRestored (restoredCard st)), db')
               \<and> cards db' = cards db @ [restoredCard st]
               \<and> findCard db' (cs_id st) = Some (restoredCard st)"
    if h: "(\<exists>l. findList db (cs_listId st) = Some l \<and> l_boardId l = cs_boardId st)
          \<and> findCard db (cs_id st) = None
          \<and> findBoard db (cs_boardId st) \<noteq> None \<and> findBoard db (ev_boardId event) \<noteq> None
          \<and> findEvent db (newId env 0) = None"
  proof -
    from h obtain l where l: "findList db (cs_listId st) = Some l" "l_boardId l = cs_boardId st"
      by blast
    from undoDeleted_ok [OF l, of event env actor] h obtain db' where
      r: "undoDeleted env actor event (Some st) db = (Inr (UndoRestored (restoredCard st)), db')"
      and cs: "cards db' = cards db @ [restoredCard st]"
      by auto
    have "findCard db' (cs_id st) = Some (restoredCard st)"
      unfolding findCard_def cs
      using h by (intro find_snoc_new) (simp_all add: findCard_def restoredCard_def)
    with r cs u show ?thesis by simp
  qed
  from asCardState_Some [OF assms(6)] obtain s where s: "ev_before event = Some s"
    "s_id s = Some (cs_id st)" "s_boardId s = Some (cs_boardId st)"
    "s_listId s = Some (cs_listId st)" "cs_title st = s_title s"
    "cs_description st = s_description s" "cs_dueAt st = nullish (s_dueAt s)"
    "cs_position st = s_position s"
    by blast
  have d: "\<exists>s. ev_before event = Some s
           \<and> Some (c_id (restoredCard st)) = s_id s
           \<and> Some (c_boardId (restoredCard st)) = s_boardId s
           \<and> Some (c_listId (restoredCard st)) = s_listId s
           \<and> (\<forall>t. s_title s = Some t \<longrightarrow> c_title (restoredCard st) = t)
           \<and> (\<forall>d. s_description s = Some d \<longrightarrow> c_description (restoredCard st) = d)
           \<and> (\<forall>p. s_position s = Some p \<longrightarrow> c_position (restoredCard st) = p)
           \<and> (s_dueAt s = Some DueNull \<longrightarrow> c_dueAt (restoredCard st) = None)
           \<and> (\<forall>t. s_dueAt s = Some (DueAt t) \<longrightarrow> c_dueAt (restoredCard st) = Some t)"
    using s by (intro exI [of _ s]) (simp add: restoredCard_def nullish_def)
  have e: "restoredCard st = c" if "ev_before event = Some (cardSnapshot c)" for c
    using that assms(6) by (intro restoredCard_of_cardSnapshot) simp
  from a b c d e show ?thesis by blast
qed

theorem undo_deleted_restores_witness:
  "validId ''d'' \<and> findEvent deletedDb ''d'' = Some deletedEvent
   \<and> \<not> alreadyUndone deletedDb deletedEvent
   \<and> ev_entityType deletedEvent = CARD \<and> ev_type deletedEvent = CardDeleted
   \<and> ev_before deletedEvent = Some (cardSnapshot movedCard)
   \<and> findCard deletedDb ''c'' = None
   \<and> (\<exists>db'. undo (demoEnv ''u'' 5) demoActor ''d'' deletedDb
               = (Inr (UndoRestored movedCard), db')
            \<and> cards db' = cards deletedDb @ [movedCard]
            \<and> findCard db' ''c'' = Some movedCard)"
proof -
  let ?st = "\<lparr>cs_id = ''c'', cs_boardId = ''b'', cs_listId = ''b++'',
     cs_title = Some ''Fix bug'', cs_description = Some [], cs_dueAt = None,
     cs_position = Some 0\<rparr>"
  have h: "validId ''d''" "findEvent deletedDb ''d'' = Some deletedEvent"
    "\<not> alreadyUndone deletedDb deletedEvent"
    "ev_entityType deletedEvent = CARD" "ev_type deletedEvent = CardDeleted"
    "asCardState (ev_before deletedEvent) = Some ?st"
    by code_simp+
  have b: "ev_before deletedEvent = Some (cardSnapshot movedCard)"
    by (simp add: deletedEvent_def newEvent_def)
  have g: "\<exists>l. findList deletedDb (cs_listId ?st) = Some l \<and> l_boardId l = cs_boardId ?st"
    by (rule exI [of _ "\<lparr>l_id = ''b++'', l_boardId = ''b'', l_title = ''Doing'', l_position = 2\<rparr>"])
       code_simp
  have k: "findCard deletedDb (cs_id ?st) = None" "findBoard deletedDb (cs_boardId ?st) \<noteq> None"
    "findBoard deletedDb (ev_boardId deletedEvent) \<noteq> None"
    "findEvent deletedDb (newId (demoEnv ''u'' 5) 0) = None"
    by code_simp+
  note t = undo_deleted_restores [OF h, of "demoEnv ''u'' 5" demoActor]
  from t [THEN conjunct2, THEN conjunct2, THEN conjunct2, THEN conjunct2, rule_format, OF b]
  have r: "restoredCard ?st = movedCard" .
  from t [THEN conjunct2, THEN conjunct2, THEN conjunct1] g k
  have "\<exists>db'. undo (demoEnv ''u'' 5) demoActor ''d'' deletedDb
               = (Inr (UndoRestored (restoredCard ?st)), db')
            \<and> cards db' = cards deletedDb @ [restoredCard ?st]
            \<and> findCard db' (cs_id ?st) = Some (restoredCard ?st)"
    by blast
  then have e: "\<exists>db'. undo (demoEnv ''u'' 5) demoActor ''d'' deletedDb
               = (Inr (UndoRestored movedCard), db')
            \<and> cards db' = cards deletedDb @ [movedCard]
            \<and> findCard db' ''c'' = Some movedCard"
    unfolding r by simp
  have c: "findCard deletedDb ''c'' = None" using k(1) by simp
  from h(1-5) b c e show ?thesis by (intro conjI)
qed


lemma beforePatch_fields:
  assumes "(case asCardState v of Some st \<Rightarrow> Some (stateAsPatch st) | None \<Rightarrow> asCardPatch v) = Some p"
  shows "\<exists>s. v = Some s \<and> cp_listId p = s_listId s \<and> cp_title p = s_title s
           \<and> cp_description p = s_description s \<and> cp_dueAt p = nullish (s_dueAt s)
           \<and> cp_position p = s_position s"
proof (cases "asCardState v")
  case None
  with assms show ?thesis
    by (auto simp: asCardPatch_def Let_def split: option.splits if_splits)
next
  case (Some st)
  with assms asCardState_Some [OF Some] show ?thesis
    by (auto simp: stateAsPatch_def)
qed

lemma undo_reverted_branch:
  assumes "findEvent db eventId = Some event"
    and "ev_type event = CardMoved \<or> ev_type event = CardUpdated"
    and "undo env actor eventId db = (Inr r, db')" "r \<noteq> AlreadyUndone"
  shows "undoReverted env actor event
           (case asCardState (ev_before event) of
              Some st \<Rightarrow> Some (stateAsPatch st) | None \<Rightarrow> asCardPatch (ev_before event)) db
         = (Inr r, db')"
  using assms unfolding undo_def Let_def by (auto split: if_splits)

lemma undoReverted_result:
  assumes "undoReverted env actor event bp db = (Inr r, db')"
  shows "\<exists>p current. bp = Some p \<and> findCard db (ev_entityId event) = Some current
           \<and> r = UndoReverted (applyPatch p current)
           \<and> cards db' = map (\<lambda>c. if c_id c = ev_entityId event then applyPatch p c else c)
                            (cards db)"
  using assms unfolding undoReverted_def Let_def
  by (auto split: option.splits dest!: commit_Inr simp: bind_eq_Some_conv
      dest!: updateCardRow_Some insertEvent_Some touchBoard_Some)

lemma applyPatch_id: "c_id (applyPatch p c) = c_id c"
  by (simp add: applyPatch_def)

text \<open>
  What a successful undo of a \<^verbatim>\<open>card.moved\<close> or \<^verbatim>\<open>card.updated\<close> event
  (one that is not the no-op) writes: the card it returns and stores is the current card
  patched from the logged \<^verbatim>\<open>before\<close> snapshot. A field that the snapshot does
  not have keeps the current card's value; a list, position, title or description that
  the snapshot has is written back, and so is a due date that is a date. A due date that
  the snapshot has as \<^verbatim>\<open>null\<close> is not written back: the card keeps its current due
  date. The card keeps its id and board, and the other cards are untouched.
\<close>

lemma undoReverted_fields:
  assumes "findEvent db eventId = Some event"
    and "ev_type event = CardMoved \<or> ev_type event = CardUpdated"
    and "undo env actor eventId db = (Inr r, db')" "r \<noteq> AlreadyUndone"
  shows "\<exists>s current updated.
           ev_before event = Some s
           \<and> findCard db (ev_entityId event) = Some current
           \<and> r = UndoReverted updated
           \<and> findCard db' (ev_entityId event) = Some updated
           \<and> c_id updated = c_id current \<and> c_boardId updated = c_boardId current
           \<and> (s_listId s = None \<longrightarrow> c_listId updated = c_listId current)
           \<and> (s_position s = None \<longrightarrow> c_position updated = c_position current)
           \<and> (s_title s = None \<longrightarrow> c_title updated = c_title current)
           \<and> (s_description s = None \<longrightarrow> c_description updated = c_description current)
           \<and> (s_dueAt s = None \<longrightarrow> c_dueAt updated = c_dueAt current)
           \<and> (s_dueAt s = Some DueNull \<longrightarrow> c_dueAt updated = c_dueAt current)
           \<and> (\<forall>l. s_listId s = Some l \<and> l \<noteq> [] \<longrightarrow> c_listId updated = l)
           \<and> (\<forall>x. s_position s = Some x \<longrightarrow> c_position updated = x)
           \<and> (\<forall>t. s_title s = Some t \<longrightarrow> c_title updated = t)
           \<and> (\<forall>d. s_description s = Some d \<longrightarrow> c_description updated = d)
           \<and> (\<forall>t. s_dueAt s = Some (DueAt t) \<longrightarrow> c_dueAt updated = Some t)
           \<and> (\<forall>c \<in> set (cards db). c_id c \<noteq> ev_entityId event \<longrightarrow> c \<in> set (cards db'))"
proof -
  let ?bp = "case asCardState (ev_before event) of
              Some st \<Rightarrow> Some (stateAsPatch st) | None \<Rightarrow> asCardPatch (ev_before event)"
  from undoReverted_result [OF undo_reverted_branch [OF assms]] obtain p current where
    bp: "?bp = Some p" and cur: "findCard db (ev_entityId event) = Some current"
    and r: "r = UndoReverted (applyPatch p current)"
    and cs: "cards db' = map (\<lambda>c. if c_id c = ev_entityId event then applyPatch p c else c)
                            (cards db)"
    by blast
  from beforePatch_fields [OF bp] obtain s where s: "ev_before event = Some s"
    "cp_listId p = s_listId s" "cp_title p = s_title s" "cp_description p = s_description s"
    "cp_dueAt p = nullish (s_dueAt s)" "cp_position p = s_position s"
    by blast
  have found: "findCard db' (ev_entityId event) = Some (applyPatch p current)"
    unfolding findCard_def cs
    using find_map_update [of c_id "applyPatch p" "ev_entityId event" "cards db"] cur
    by (simp add: findCard_def applyPatch_id)
  have others: "\<forall>c \<in> set (cards db). c_id c \<noteq> ev_entityId event \<longrightarrow> c \<in> set (cards db')"
  proof (intro ballI impI)
    fix c assume "c \<in> set (cards db)" "c_id c \<noteq> ev_entityId event"
    then have "c \<in> (\<lambda>c. if c_id c = ev_entityId event then applyPatch p c else c) ` set (cards db)"
      by (intro image_eqI [of _ _ c]) simp_all
    then show "c \<in> set (cards db')" by (simp add: cs)
  qed
  have fields:
    "c_id (applyPatch p current) = c_id current"
    "c_boardId (applyPatch p current) = c_boardId current"
    "s_listId s = None \<longrightarrow> c_listId (applyPatch p current) = c_listId current"
    "s_position s = None \<longrightarrow> c_position (applyPatch p current) = c_position current"
    "s_title s = None \<longrightarrow> c_title (applyPatch p current) = c_title current"
    "s_description s = None \<longrightarrow> c_description (applyPatch p current) = c_description current"
    "s_dueAt s = None \<longrightarrow> c_dueAt (applyPatch p current) = c_dueAt current"
    "s_dueAt s = Some DueNull \<longrightarrow> c_dueAt (applyPatch p current) = c_dueAt current"
    "\<forall>l. s_listId s = Some l \<and> l \<noteq> [] \<longrightarrow> c_listId (applyPatch p current) = l"
    "\<forall>x. s_position s = Some x \<longrightarrow> c_position (applyPatch p current) = x"
    "\<forall>t. s_title s = Some t \<longrightarrow> c_title (applyPatch p current) = t"
    "\<forall>d. s_description s = Some d \<longrightarrow> c_description (applyPatch p current) = d"
    "\<forall>t. s_dueAt s = Some (DueAt t) \<longrightarrow> c_dueAt (applyPatch p current) = Some t"
    using s(2-6) by (simp_all add: applyPatch_def nullish_def)
  show ?thesis
    apply (rule exI [of _ s], rule exI [of _ current], rule exI [of _ "applyPatch p current"])
    apply (intro conjI)
    using s(1) cur r found others fields apply (blast | assumption)+
    done
qed

text \<open>
  In the scenario the move is undone after the title was edited: the card returns to
  Todo at position 1 and keeps the edited title, which the snapshot of a
  \<^verbatim>\<open>card.moved\<close> event does not have.
\<close>

lemma undo_move_keeps_later_title:
  "findEvent editedDb ''m'' = Some movedEvent \<and> ev_type movedEvent = CardMoved
   \<and> ev_before movedEvent = Some (movedSnapshot ''b+'' 1)
   \<and> findCard editedDb ''c''
       = Some \<lparr>c_id = ''c'', c_boardId = ''b'', c_listId = ''b++'',
            c_title = ''Fix bug now'', c_description = [], c_dueAt = None, c_position = 0\<rparr>
   \<and> undo (demoEnv ''u'' 5) demoActor ''m'' editedDb
       = (Inr (UndoReverted \<lparr>c_id = ''c'', c_boardId = ''b'', c_listId = ''b+'',
            c_title = ''Fix bug now'', c_description = [], c_dueAt = None, c_position = 1\<rparr>),
          undoneDb)
   \<and> (\<exists>updated. findCard undoneDb ''c'' = Some updated
          \<and> c_title updated = ''Fix bug now'' \<and> c_listId updated = ''b+''
          \<and> c_position updated = 1)"
proof -
  let ?cur = "\<lparr>c_id = ''c'', c_boardId = ''b'', c_listId = ''b++'',
            c_title = ''Fix bug now'', c_description = [], c_dueAt = None, c_position = 0\<rparr>"
  let ?r = "UndoReverted \<lparr>c_id = ''c'', c_boardId = ''b'', c_listId = ''b+'',
          c_title = ''Fix bug now'', c_description = [], c_dueAt = None, c_position = 1\<rparr>"
  have e: "findEvent editedDb ''m'' = Some movedEvent" by code_simp
  have ty: "ev_type movedEvent = CardMoved" by code_simp
  have b: "ev_before movedEvent = Some (movedSnapshot ''b+'' 1)"
    by (simp add: movedEvent_def newEvent_def)
  have c: "findCard editedDb ''c'' = Some ?cur" by code_simp
  have "fst (undo (demoEnv ''u'' 5) demoActor ''m'' editedDb) = Inr ?r"
    by code_simp
  then have u: "undo (demoEnv ''u'' 5) demoActor ''m'' editedDb = (Inr ?r, undoneDb)"
    by (simp add: undoneDb_def prod_eq_iff)
  have ne: "?r \<noteq> AlreadyUndone" by simp
  have id: "ev_entityId movedEvent = ''c''" by (simp add: movedEvent_def newEvent_def)
  from undoReverted_fields [OF e disjI1 [OF ty] u ne]
  have "\<exists>updated. findCard undoneDb ''c'' = Some updated
          \<and> c_title updated = ''Fix bug now'' \<and> c_listId updated = ''b+''
          \<and> c_position updated = 1"
  proof (elim exE conjE)
    fix s current updated
    assume s: "ev_before movedEvent = Some s"
      and cur: "findCard editedDb (ev_entityId movedEvent) = Some current"
      and f: "findCard undoneDb (ev_entityId movedEvent) = Some updated"
      and t: "s_title s = None \<longrightarrow> c_title updated = c_title current"
      and l: "\<forall>l. s_listId s = Some l \<and> l \<noteq> [] \<longrightarrow> c_listId updated = l"
      and x: "\<forall>x. s_position s = Some x \<longrightarrow> c_position updated = x"
    from s b have s': "s = movedSnapshot ''b+'' 1" by simp
    from cur c id have cur': "current = ?cur" by simp
    have "c_title updated = ''Fix bug now''" "c_listId updated = ''b+''" "c_position updated = 1"
      using t l x unfolding s' cur' by (simp_all add: movedSnapshot_def emptySnapshot_def)
    with f id show ?thesis by simp
  qed
  with e ty b c u show ?thesis by (intro conjI)
qed

text \<open>
  The snapshot that a \<^verbatim>\<open>card.updated\<close> (or \<^verbatim>\<open>card.deleted\<close>) event logs is the
  whole card row, so none of its fields is absent; a missing due date is logged as
  \<^verbatim>\<open>null\<close>.
\<close>

lemma cardSnapshot_complete:
  "s_listId (cardSnapshot c) = Some (c_listId c)
   \<and> s_title (cardSnapshot c) = Some (c_title c)
   \<and> s_description (cardSnapshot c) = Some (c_description c)
   \<and> s_dueAt (cardSnapshot c) = Some (dueToJson (c_dueAt c))
   \<and> s_position (cardSnapshot c) = Some (c_position c)
   \<and> (s_dueAt (cardSnapshot c) = Some DueNull \<longleftrightarrow> c_dueAt c = None)"
  by (simp add: cardSnapshot_def emptySnapshot_def dueToJson_def split: option.splits)

text \<open>
  C6 (the handler departs from the claim). Undoing a \<^verbatim>\<open>card.moved\<close> or
  \<^verbatim>\<open>card.updated\<close> event is to overwrite on the current card the fields present in
  the event's logged \<^verbatim>\<open>before\<close> snapshot. In the scenario the card has no due
  date and is given the due date 100 by the edit \<open>f\<close>, whose logged
  \<^verbatim>\<open>before\<close> snapshot has the field \<^verbatim>\<open>dueAt\<close>, with the value
  \<^verbatim>\<open>null\<close>. Undoing \<open>f\<close> succeeds and logs its \<^verbatim>\<open>card.undone\<close> event, but
  the card it returns and stores still has the due date 100: the field of the snapshot
  is not written back, and the undone edit stands.
\<close>

theorem undo_update_keeps_new_due_date:
  "findCard sprintDb ''c''
     = Some \<lparr>c_id = ''c'', c_boardId = ''b'', c_listId = ''b+'', c_title = ''Fix bug'',
             c_description = [], c_dueAt = None, c_position = 1\<rparr>
   \<and> findCard dueDb ''c''
       = Some \<lparr>c_id = ''c'', c_boardId = ''b'', c_listId = ''b+'', c_title = ''Fix bug'',
               c_description = [], c_dueAt = Some 100, c_position = 1\<rparr>
   \<and> map_option ev_type (findEvent dueDb ''f'') = Some CardUpdated
   \<and> map_option ev_entityId (findEvent dueDb ''f'') = Some ''c''
   \<and> map_option ev_before (findEvent dueDb ''f'')
       = Some (Some (cardSnapshot \<lparr>c_id = ''c'', c_boardId = ''b'', c_listId = ''b+'',
               c_title = ''Fix bug'', c_description = [], c_dueAt = None, c_position = 1\<rparr>))
   \<and> map_option (map_option s_dueAt \<circ> ev_before) (findEvent dueDb ''f'')
       = Some (Some (Some DueNull))
   \<and> fst (undo (demoEnv ''g'' 4) demoActor ''f'' dueDb)
       = Inr (UndoReverted \<lparr>c_id = ''c'', c_boardId = ''b'', c_listId = ''b+'',
               c_title = ''Fix bug'', c_description = [], c_dueAt = Some 100, c_position = 1\<rparr>)
   \<and> findCard (snd (undo (demoEnv ''g'' 4) demoActor ''f'' dueDb)) ''c''
       = Some \<lparr>c_id = ''c'', c_boardId = ''b'', c_listId = ''b+'', c_title = ''Fix bug'',
               c_description = [], c_dueAt = Some 100, c_position = 1\<rparr>
   \<and> map (\<lambda>e. (ev_id e, ev_type e, ev_revertedEventId e))
         (drop (length (events dueDb)) (events (snd (undo (demoEnv ''g'' 4) demoActor ''f'' dueDb))))
       = [(''g'', CardUndone, Some ''f'')]"
  by code_simp

subsection \<open>Activity log\<close>

lemma set_newestFirst: "set (newestFirst es) = set es"
  by (simp add: newestFirst_def)

lemma sorted_newestFirst: "sorted (map (\<lambda>e. - ev_createdAt e) (newestFirst es))"
  by (simp add: newestFirst_def)

lemma newestFirst_head:
  assumes "newestFirst es = e # rest" "x \<in> set es"
  shows "ev_createdAt x \<le> ev_createdAt e"
proof -
  from sorted_newestFirst [of es] assms(1)
  have "\<forall>y \<in> set rest. - ev_createdAt e \<le> - ev_createdAt y" by simp
  moreover from set_newestFirst [of es] assms have "x = e \<or> x \<in> set rest" by auto
  ultimately show ?thesis by auto
qed

lemma clearedAt_Some:
  assumes "clearedAt db boardId clientId = Some t"
    and "m \<in> set (events db)" "ev_boardId m = boardId" "ev_type m = ActivityCleared"
      "ev_actorClientId m = clientId"
  shows "ev_createdAt m \<le> t"
proof -
  let ?ms = "filter (\<lambda>e. ev_boardId e = boardId \<and> ev_type e = ActivityCleared
                                   \<and> ev_actorClientId e = clientId) (events db)"
  from assms(1) obtain e rest where e: "newestFirst ?ms = e # rest" and t: "t = ev_createdAt e"
    by (auto simp: clearedAt_def split: list.splits)
  have "m \<in> set ?ms" using assms(2-5) by simp
  from newestFirst_head [OF e this] t show ?thesis by simp
qed

lemma clearedAt_None:
  assumes "clearedAt db boardId clientId = None"
    and "m \<in> set (events db)" "ev_boardId m = boardId" "ev_type m = ActivityCleared"
      "ev_actorClientId m = clientId"
  shows False
proof -
  let ?ms = "filter (\<lambda>e. ev_boardId e = boardId \<and> ev_type e = ActivityCleared
                                   \<and> ev_actorClientId e = clientId) (events db)"
  from assms(1) have "newestFirst ?ms = []"
    by (auto simp: clearedAt_def split: list.splits)
  then have "set ?ms = {}" using set_newestFirst [of ?ms] by simp
  with assms(2-5) show False by auto
qed

lemma clearedAt_is_marker:
  assumes "clearedAt db boardId clientId = Some t"
  shows "\<exists>m \<in> set (events db). ev_boardId m = boardId \<and> ev_type m = ActivityCleared
           \<and> ev_actorClientId m = clientId \<and> ev_createdAt m = t"
proof -
  let ?ms = "filter (\<lambda>e. ev_boardId e = boardId \<and> ev_type e = ActivityCleared
                                   \<and> ev_actorClientId e = clientId) (events db)"
  from assms obtain e rest where e: "newestFirst ?ms = e # rest" and t: "t = ev_createdAt e"
    by (auto simp: clearedAt_def split: list.splits)
  from e set_newestFirst [of ?ms] have "e \<in> set ?ms" by (metis list.set_intros(1))
  with t show ?thesis by auto
qed

lemma getActivity_member:
  assumes "getActivity actor boardId limitParam db = Inr es" "e \<in> set es"
  shows "e \<in> set (events db) \<and> ev_boardId e = boardId
         \<and> (case clearedAt db boardId (actorClientId actor) of
               None \<Rightarrow> True | Some t \<Rightarrow> t < ev_createdAt e)"
proof -
  from assms(1) have es: "es = take (effectiveLimit limitParam) (newestFirst
              (filter (\<lambda>e. ev_boardId e = boardId
                         \<and> (case clearedAt db boardId (actorClientId actor) of
                              None \<Rightarrow> True | Some t \<Rightarrow> t < ev_createdAt e))
                 (events db)))"
    by (auto simp: getActivity_def Let_def split: if_splits)
  from assms(2) have "e \<in> set (newestFirst
              (filter (\<lambda>e. ev_boardId e = boardId
                         \<and> (case clearedAt db boardId (actorClientId actor) of
                              None \<Rightarrow> True | Some t \<Rightarrow> t < ev_createdAt e))
                 (events db)))"
    unfolding es by (rule in_set_takeD)
  then show ?thesis by (simp add: set_newestFirst)
qed

lemma getActivity_after_markers:
  assumes "getActivity actor boardId limitParam db = Inr es" "e \<in> set es"
    and "m \<in> set (events db)" "ev_boardId m = boardId" "ev_type m = ActivityCleared"
      "ev_actorClientId m = actorClientId actor"
  shows "ev_createdAt m < ev_createdAt e"
proof (cases "clearedAt db boardId (actorClientId actor)")
  case None
  from clearedAt_None [OF None assms(3-6)] show ?thesis ..
next
  case (Some t)
  from clearedAt_Some [OF Some assms(3-6)] getActivity_member [OF assms(1,2)] Some
  show ?thesis by simp
qed

lemma clearActivity_Inr:
  assumes "clearActivity env actor boardId db = (Inr res, db')"
  shows "events db' = events db @ [newEvent env 0 actor boardId BOARD boardId ActivityCleared
                                     None None None]
         \<and> cards db' = cards db \<and> lists db' = lists db
         \<and> res = (newId env 0, dbClock env)"
  using assms unfolding clearActivity_def Let_def
  by (auto split: if_splits option.splits dest!: commit_Inr simp: bind_eq_Some_conv newEvent_def
      dest!: insertEvent_Some touchBoard_Some)

lemma clearedAt_other_actor:
  assumes "events db' = events db @ [m]" "ev_actorClientId m \<noteq> clientId"
  shows "clearedAt db' boardId clientId = clearedAt db boardId clientId"
  using assms by (simp add: clearedAt_def)

text \<open>
  C7. When an actor's \<^verbatim>\<open>activity/clear\<close> for a board succeeds, no event is deleted:
  the log grows by one \<^verbatim>\<open>activity.cleared\<close> marker carrying that actor's client id
  (lists and cards are as before). In every later state that still holds the marker,
  every event that an activity query by the same actor returns was created strictly
  after the marker, and strictly after every marker of that actor on the board (so
  after the most recent one; the markers themselves are not returned). For an actor
  with a different client id the time threshold of the query is what it was before
  the clear, and the query returns the newest of the events it showed before together
  with the new marker event: nothing is hidden from that actor.
\<close>

theorem clear_hides_for_clearing_actor_only:
  assumes "clearActivity env actor boardId db = (Inr res, db')"
  shows "\<exists>marker.
           events db' = events db @ [marker] \<and> cards db' = cards db \<and> lists db' = lists db
           \<and> ev_type marker = ActivityCleared \<and> ev_boardId marker = boardId
           \<and> ev_actorClientId marker = actorClientId actor
           \<and> ev_createdAt marker = dbClock env
           \<and> (\<forall>later limitParam es e.
                 marker \<in> set (events later)
                 \<and> getActivity actor boardId limitParam later = Inr es \<and> e \<in> set es
                 \<longrightarrow> ev_createdAt marker < ev_createdAt e
                     \<and> (\<forall>m \<in> set (events later).
                           ev_boardId m = boardId \<and> ev_type m = ActivityCleared
                           \<and> ev_actorClientId m = actorClientId actor
                           \<longrightarrow> ev_createdAt m < ev_createdAt e))
           \<and> (\<forall>other limitParam.
                 actorClientId other \<noteq> actorClientId actor
                 \<longrightarrow> clearedAt db' boardId (actorClientId other)
                       = clearedAt db boardId (actorClientId other)
                     \<and> getActivity other boardId limitParam db'
                       = Inr (take (effectiveLimit limitParam) (newestFirst
                           (filter (\<lambda>e. ev_boardId e = boardId
                              \<and> (case clearedAt db boardId (actorClientId other) of
                                    None \<Rightarrow> True | Some t \<Rightarrow> t < ev_createdAt e))
                              (events db @ [marker])))))"
proof -
  let ?marker = "newEvent env 0 actor boardId BOARD boardId ActivityCleared None None None"
  from clearActivity_Inr [OF assms] have
    ev: "events db' = events db @ [?marker]" and cs: "cards db' = cards db"
    and ls: "lists db' = lists db"
    by simp_all
  have valid: "validId boardId"
    using assms by (auto simp: clearActivity_def split: if_splits)
  have marks: "ev_type ?marker = ActivityCleared" "ev_boardId ?marker = boardId"
    "ev_actorClientId ?marker = actorClientId actor" "ev_createdAt ?marker = dbClock env"
    by (simp_all add: newEvent_def)
  have own: "ev_createdAt ?marker < ev_createdAt e
             \<and> (\<forall>m \<in> set (events later).
                           ev_boardId m = boardId \<and> ev_type m = ActivityCleared
                           \<and> ev_actorClientId m = actorClientId actor
                           \<longrightarrow> ev_createdAt m < ev_createdAt e)"
    if "?marker \<in> set (events later)
        \<and> getActivity actor boardId limitParam later = Inr es \<and> e \<in> set es"
    for later limitParam es e
    using that getActivity_after_markers [of actor boardId limitParam later es e] marks
    by blast
  have others: "clearedAt db' boardId (actorClientId other)
                       = clearedAt db boardId (actorClientId other)
                \<and> getActivity other boardId limitParam db'
                       = Inr (take (effectiveLimit limitParam) (newestFirst
                           (filter (\<lambda>e. ev_boardId e = boardId
                              \<and> (case clearedAt db boardId (actorClientId other) of
                                    None \<Rightarrow> True | Some t \<Rightarrow> t < ev_createdAt e))
                              (events db @ [?marker]))))"
    if "actorClientId other \<noteq> actorClientId actor" for other limitParam
  proof -
    have c: "clearedAt db' boardId (actorClientId other)
               = clearedAt db boardId (actorClientId other)"
      using ev that marks(3) by (intro clearedAt_other_actor [of db' db ?marker]) simp_all
    show ?thesis
      unfolding getActivity_def Let_def c ev using valid by simp
  qed
  show ?thesis
    apply (rule exI [of _ ?marker])
    apply (intro conjI allI impI)
    using ev cs ls marks own others apply (blast | assumption)+
    done
qed

theorem clear_hides_for_clearing_actor_only_witness:
  "clearActivity (demoEnv ''x'' 5) demoActor ''b'' editedDb = (Inr (''x'', 5), clearedDb)
   \<and> map ev_id (events clearedDb) = map ev_id (events editedDb) @ [''x'']
   \<and> map_sum id (map ev_id) (getActivity demoActor ''b'' None editedDb)
       = Inr [''e'', ''m'', ''c+'', ''b++++'', ''b+++++'', ''b++++++'', ''b+++++++'']
   \<and> map_sum id (map ev_id) (getActivity demoActor ''b'' None clearedDb) = Inr []
   \<and> map_sum id (map ev_id) (getActivity demoActor ''b'' None laterDb) = Inr [''k+'']
   \<and> map_sum id (map ev_id) (getActivity otherActor ''b'' None laterDb)
       = Inr [''k+'', ''x'', ''e'', ''m'', ''c+'', ''b++++'', ''b+++++'', ''b++++++'', ''b+++++++'']
   \<and> (case getActivity demoActor ''b'' None laterDb of
         Inl failure \<Rightarrow> False
       | Inr es \<Rightarrow> list_all (\<lambda>e. 5 < ev_createdAt e) es)"
proof -
  have "fst (clearActivity (demoEnv ''x'' 5) demoActor ''b'' editedDb) = Inr (''x'', 5)"
    by code_simp
  then have c: "clearActivity (demoEnv ''x'' 5) demoActor ''b'' editedDb
                  = (Inr (''x'', 5), clearedDb)"
    by (simp add: clearedDb_def prod_eq_iff)
  have q: "map ev_id (events clearedDb) = map ev_id (events editedDb) @ [''x'']"
    "map_sum id (map ev_id) (getActivity demoActor ''b'' None editedDb)
       = Inr [''e'', ''m'', ''c+'', ''b++++'', ''b+++++'', ''b++++++'', ''b+++++++'']"
    "map_sum id (map ev_id) (getActivity demoActor ''b'' None clearedDb) = Inr []"
    "map_sum id (map ev_id) (getActivity demoActor ''b'' None laterDb) = Inr [''k+'']"
    "map_sum id (map ev_id) (getActivity otherActor ''b'' None laterDb)
       = Inr [''k+'', ''x'', ''e'', ''m'', ''c+'', ''b++++'', ''b+++++'', ''b++++++'', ''b+++++++'']"
    by code_simp+
  from clear_hides_for_clearing_actor_only [OF c] obtain marker where
    ev: "events clearedDb = events editedDb @ [marker]"
    and at: "ev_createdAt marker = dbClock (demoEnv ''x'' 5)"
    and own: "\<forall>later limitParam es e.
                 marker \<in> set (events later)
                 \<and> getActivity demoActor ''b'' limitParam later = Inr es \<and> e \<in> set es
                 \<longrightarrow> ev_createdAt marker < ev_createdAt e
                     \<and> (\<forall>m \<in> set (events later).
                           ev_boardId m = ''b'' \<and> ev_type m = ActivityCleared
                           \<and> ev_actorClientId m = actorClientId demoActor
                           \<longrightarrow> ev_createdAt m < ev_createdAt e)"
    by (elim exE conjE)
  have "last (events clearedDb) \<in> set (events laterDb)" by code_simp
  with ev have mem: "marker \<in> set (events laterDb)" by simp
  have five: "dbClock (demoEnv ''x'' 5) = 5" by (simp add: demoEnv_def)
  obtain es where g: "getActivity demoActor ''b'' None laterDb = Inr es"
    by (simp add: getActivity_def validId_def)
  have "5 < ev_createdAt e" if "e \<in> set es" for e
    using own [rule_format, of laterDb None es e] mem g that at five by simp
  then have "\<forall>e \<in> set es. 5 < ev_createdAt e" by blast
  with g have r: "case getActivity demoActor ''b'' None laterDb of
         Inl failure \<Rightarrow> False
       | Inr es \<Rightarrow> list_all (\<lambda>e. 5 < ev_createdAt e) es"
    by (simp add: list_all_iff)
  from c q r show ?thesis by (intro conjI)
qed

lemma parseInt10_examples:
  "parseInt10 ''50'' = Some 50" "parseInt10 ''0'' = Some 0" "parseInt10 ''-3'' = Some (- 3)"
  "parseInt10 '' 12abc'' = Some 12" "parseInt10 ''abc'' = None" "parseInt10 [] = None"
  by code_simp+

lemma effectiveLimit_None: "effectiveLimit None = 50"
  by (simp add: effectiveLimit_def parseInt10_examples)

lemma effectiveLimit_Some:
  "effectiveLimit (Some s) =
     (case parseInt10 s of None \<Rightarrow> 50
      | Some n \<Rightarrow> if n = 0 then 50 else nat (min (max n 1) 200))"
  by (simp add: effectiveLimit_def split: option.splits)

lemma effectiveLimit_range: "1 \<le> effectiveLimit limitParam \<and> effectiveLimit limitParam \<le> 200"
proof (cases limitParam)
  case None
  then show ?thesis by (simp add: effectiveLimit_None)
next
  case (Some s)
  then show ?thesis by (auto simp: effectiveLimit_Some split: option.splits)
qed

lemma getActivity_newest_first:
  assumes "getActivity actor boardId limitParam db = Inr es"
  shows "length es \<le> effectiveLimit limitParam
         \<and> sorted (rev (map ev_createdAt es))
         \<and> (\<forall>e \<in> set es. \<forall>x \<in> set (events db).
               ev_boardId x = boardId
               \<and> (case clearedAt db boardId (actorClientId actor) of
                     None \<Rightarrow> True | Some t \<Rightarrow> t < ev_createdAt x)
               \<and> x \<notin> set es \<longrightarrow> ev_createdAt x \<le> ev_createdAt e)"
proof -
  let ?vis = "filter (\<lambda>e. ev_boardId e = boardId
                         \<and> (case clearedAt db boardId (actorClientId actor) of
                              None \<Rightarrow> True | Some t \<Rightarrow> t < ev_createdAt e))
                 (events db)"
  let ?n = "effectiveLimit limitParam"
  from assms have es: "es = take ?n (newestFirst ?vis)"
    by (auto simp: getActivity_def Let_def split: if_splits)
  have srt: "sorted (map (\<lambda>e. - ev_createdAt e) (newestFirst ?vis))"
    by (rule sorted_newestFirst)
  have len: "length es \<le> ?n" by (simp add: es)
  have app: "sorted (map (\<lambda>e. - ev_createdAt e) (es @ drop ?n (newestFirst ?vis)))"
    unfolding es using srt by simp
  then have "sorted (map (\<lambda>e. - ev_createdAt e) es)"
    by (simp add: sorted_append)
  then have desc: "sorted (rev (map ev_createdAt es))"
    by (induction es) (auto simp: sorted_append)
  have newest: "ev_createdAt x \<le> ev_createdAt e"
    if "e \<in> set es" "x \<in> set (events db)" "ev_boardId x = boardId"
      "case clearedAt db boardId (actorClientId actor) of
                     None \<Rightarrow> True | Some t \<Rightarrow> t < ev_createdAt x" "x \<notin> set es" for e x
  proof -
    from that(2-4) have "x \<in> set (newestFirst ?vis)" by (simp add: set_newestFirst)
    moreover have "set (newestFirst ?vis) = set es \<union> set (drop ?n (newestFirst ?vis))"
      unfolding es by (metis append_take_drop_id set_append)
    ultimately have x: "x \<in> set (drop ?n (newestFirst ?vis))"
      using that(5) by blast
    from app have "\<forall>a \<in> set es. \<forall>b \<in> set (drop ?n (newestFirst ?vis)).
                 - ev_createdAt a \<le> - ev_createdAt b"
      by (simp add: sorted_append)
    with that(1) x show ?thesis by auto
  qed
  from len desc newest show ?thesis by blast
qed

text \<open>
  C8 (the code at the failing input). The claim puts the effective limit of
  \<^verbatim>\<open>?limit=0\<close> at 1, the caller's limit clamped to the range 1 to 200. In
  \<^verbatim>\<open>parseInt(limitRaw, 10) || 50\<close> the parsed 0 is falsy and is replaced by the
  default before the clamp is applied: the query returns up to 50 events, here all
  seven of the board, while \<^verbatim>\<open>?limit=1\<close> and \<^verbatim>\<open>?limit=-1\<close> both return one
  event. The lemmas before it show the rest of the claim: the events returned are the
  newest visible ones, newest first, at most the effective limit, which is 50 with no
  limit given and the clamped value for every limit that parses to a non-zero integer.
\<close>

theorem activity_limit_zero:
  "parseInt10 ''0'' = Some 0
   \<and> effectiveLimit (Some ''0'') = 50
   \<and> map_sum id (map ev_id) (getActivity demoActor ''b'' (Some ''0'') editedDb)
       = Inr [''e'', ''m'', ''c+'', ''b++++'', ''b+++++'', ''b++++++'', ''b+++++++'']
   \<and> map_sum id (map ev_id) (getActivity demoActor ''b'' (Some ''1'') editedDb) = Inr [''e'']
   \<and> map_sum id (map ev_id) (getActivity demoActor ''b'' (Some ''-1'') editedDb) = Inr [''e'']"
  by code_simp

subsection \<open>Realtime notifier\<close>

lemma tryCall_returns:
  "tryCall event cb (calls, w)
     = Returns (calls @ [sub_key cb],
         case sub_run cb event w of Returns w' \<Rightarrow> w' | Throws w' \<Rightarrow> w')"
  by (cases "sub_run cb event w") (simp_all add: tryCall_def)

lemma forEach_tryCall:
  "forEach (tryCall event) subs (calls, w)
     = Returns (calls @ map sub_key subs,
         foldl (\<lambda>w cb. case sub_run cb event w of Returns w' \<Rightarrow> w' | Throws w' \<Rightarrow> w') w subs)"
proof (induction subs arbitrary: calls w)
  case Nil
  show ?case by simp
next
  case (Cons cb subs)
  show ?case by (simp add: tryCall_returns Cons.IH)
qed

text \<open>
  C9. \<^verbatim>\<open>publishBoardEvent\<close> returns normally (it never throws), with the registry
  exactly as it found it, after calling every callback subscribed to the board id,
  each once and in subscription order, whether or not callbacks before it threw: the
  world after the call is the world after each callback in turn, a throwing one
  included.
\<close>

theorem publish_reaches_every_subscriber:
  "fst (publishBoardEvent atTime boardId type payload reg w) = reg
   \<and> snd (publishBoardEvent atTime boardId type payload reg w)
       = Returns (map sub_key (case reg boardId of None \<Rightarrow> [] | Some subs \<Rightarrow> subs),
           foldl (\<lambda>w cb. case sub_run cb \<lparr>be_boardId = boardId, be_type = type,
                                  be_at = atTime, be_payload = payload\<rparr> w of
                            Returns w' \<Rightarrow> w' | Throws w' \<Rightarrow> w') w
             (case reg boardId of None \<Rightarrow> [] | Some subs \<Rightarrow> subs))"
  by (simp add: publishBoardEvent_def forEach_tryCall Let_def split: option.splits)

theorem publish_reaches_every_subscriber_witness:
  "map_option (map sub_key) (demoRegistry ''b'') = Some [1, 2]
   \<and> fst (publishBoardEvent 7 ''b'' ''board.changed'' None demoRegistry []) = demoRegistry
   \<and> snd (publishBoardEvent 7 ''b'' ''board.changed'' None demoRegistry [])
       = Returns ([1, 2], [''board.changed''])"
proof -
  have r: "demoRegistry ''b'' = Some [thrower, sender]"
    by (simp add: demoRegistry_def subscribeToBoard_def setAdd_def thrower_def sender_def)
  have k: "map_option (map sub_key) (demoRegistry ''b'') = Some [1, 2]"
    by (simp add: r thrower_def sender_def)
  from publish_reaches_every_subscriber [of 7 "''b''" "''board.changed''" None demoRegistry "[]"]
  show ?thesis
    unfolding r k by (simp add: thrower_def sender_def)
qed

lemma subscribe_adds:
  "\<exists>subs. subscribeToBoard boardId cb reg boardId = Some subs
           \<and> sub_key cb \<in> set (map sub_key subs)"
  by (simp add: subscribeToBoard_def setAdd_def)

lemma unsubscribe_removes:
  "case unsubscribe boardId cb reg boardId of
     None \<Rightarrow> True
   | Some subs \<Rightarrow> sub_key cb \<notin> set (map sub_key subs)"
  by (auto simp: unsubscribe_def setDelete_def split: option.splits)

subsection \<open>Activity events of a transaction\<close>

lemma renameBoard_events:
  "renameBoard env actor boardId nameReq db = (Inr r, db')
   \<Longrightarrow> \<exists>e. events db' = events db @ [e] \<and> ev_type e = BoardRenamed"
  unfolding renameBoard_def Let_def
  by (auto split: if_splits option.splits dest!: commit_Inr
      simp: bind_eq_Some_conv newEvent_def dest!: insertEvent_Some updateBoard_Some)

lemma createList_events:
  "createList env actor boardId titleReq db = (Inr r, db')
   \<Longrightarrow> \<exists>e. events db' = events db @ [e] \<and> ev_type e = ListCreated"
  unfolding createList_def Let_def
  by (auto split: if_splits option.splits dest!: commit_Inr
      simp: bind_eq_Some_conv newEvent_def dest!: insertList_Some insertEvent_Some touchBoard_Some)

lemma renameList_events:
  "renameList env actor boardId listId titleReq db = (Inr r, db')
   \<Longrightarrow> \<exists>e. events db' = events db @ [e] \<and> ev_type e = ListRenamed"
  unfolding renameList_def Let_def
  by (auto split: if_splits option.splits dest!: commit_Inr
      simp: bind_eq_Some_conv newEvent_def dest!: updateList_Some insertEvent_Some touchBoard_Some)

lemma deleteList_events:
  "deleteList env actor boardId listId db = (Inr r, db')
   \<Longrightarrow> \<exists>e. events db' = events db @ [e] \<and> ev_type e = ListDeleted"
  unfolding deleteList_def Let_def
  by (auto split: if_splits option.splits dest!: commit_Inr
      simp: bind_eq_Some_conv newEvent_def dest!: deleteListRow_Some insertEvent_Some touchBoard_Some)

lemma createCard_events:
  "createCard env actor boardId listId titleReq descReq dueReq db = (Inr r, db')
   \<Longrightarrow> \<exists>e. events db' = events db @ [e] \<and> ev_type e = CardCreated"
  unfolding createCard_def Let_def
  by (auto split: if_splits option.splits dest!: commit_Inr
      simp: bind_eq_Some_conv newEvent_def dest!: insertCard_Some insertEvent_Some touchBoard_Some)

lemma updateCard_events:
  "updateCard env actor cardId u db = (Inr r, db')
   \<Longrightarrow> \<exists>e. events db' = events db @ [e] \<and> ev_type e = CardUpdated"
  unfolding updateCard_def Let_def
  by (auto split: if_splits option.splits dest!: commit_Inr
      simp: bind_eq_Some_conv newEvent_def dest!: updateCardRow_Some insertEvent_Some touchBoard_Some)

lemma moveCard_events:
  "moveCard env actor cardId toListId b a db = (Inr r, db')
   \<Longrightarrow> \<exists>e. events db' = events db @ [e] \<and> ev_type e = CardMoved"
  unfolding moveCard_def Let_def
  by (auto split: if_splits option.splits dest!: commit_Inr
      simp: bind_eq_Some_conv newEvent_def dest!: updateCardRow_Some insertEvent_Some touchBoard_Some)

lemma deleteCard_events:
  "deleteCard env actor cardId db = (Inr r, db')
   \<Longrightarrow> \<exists>e. events db' = events db @ [e] \<and> ev_type e = CardDeleted"
  unfolding deleteCard_def Let_def
  by (auto split: if_splits option.splits dest!: commit_Inr
      simp: bind_eq_Some_conv newEvent_def dest!: deleteCardRow_Some insertEvent_Some touchBoard_Some)

lemma undo_events:
  assumes "undo env actor eventId db = (Inr r, db')" "r \<noteq> AlreadyUndone"
  shows "\<exists>e. events db' = events db @ [e] \<and> ev_type e = CardUndone"
  using undo_mutation [OF assms] undoneEvent_marks by blast

lemma deleteBoard_events:
  "deleteBoard env actor boardId db = (Inr r, db')
   \<Longrightarrow> events db' = filter (\<lambda>e. ev_boardId e \<noteq> boardId) (events db)
       \<and> findBoard db' boardId = None"
  unfolding deleteBoard_def
  by (auto split: if_splits option.splits dest!: commit_Inr
      simp: deleteBoardRow_def findBoard_def find_None_iff find_Some_iff)

lemma createBoard_events:
  "createBoard env actor nameReq db = (Inr r, db')
   \<Longrightarrow> \<exists>e1 e2 e3 e4. events db' = events db @ [e1, e2, e3, e4]
         \<and> ev_type e1 = BoardCreated \<and> ev_type e2 = ListCreated
         \<and> ev_type e3 = ListCreated \<and> ev_type e4 = ListCreated"
  unfolding createBoard_def Let_def insertAll_def defaultLists_def
  by (auto split: if_splits option.splits dest!: commit_Inr
      simp: bind_eq_Some_conv newEvent_def dest!: insertBoard_Some insertList_Some insertEvent_Some)

lemma rollback:
  "createBoard env actor nameReq db = (Inl f, db') \<Longrightarrow> db' = db"
  "renameBoard env actor boardId nameReq' db = (Inl f, db') \<Longrightarrow> db' = db"
  "deleteBoard env actor boardId db = (Inl f, db') \<Longrightarrow> db' = db"
  "createList env actor boardId titleReq db = (Inl f, db') \<Longrightarrow> db' = db"
  "renameList env actor boardId listId titleOpt db = (Inl f, db') \<Longrightarrow> db' = db"
  "deleteList env actor boardId listId db = (Inl f, db') \<Longrightarrow> db' = db"
  "createCard env actor boardId listId titleReq descReq dueReq db = (Inl f, db') \<Longrightarrow> db' = db"
  "updateCard env actor cardId u db = (Inl f, db') \<Longrightarrow> db' = db"
  "moveCard env actor cardId toListId b a db = (Inl f, db') \<Longrightarrow> db' = db"
  "deleteCard env actor cardId db = (Inl f, db') \<Longrightarrow> db' = db"
  unfolding createBoard_def renameBoard_def deleteBoard_def createList_def renameList_def
    deleteList_def createCard_def updateCard_def moveCard_def deleteCard_def Let_def
  by (auto split: if_splits option.splits dest!: commit_Inl)

lemma undo_rollback: "undo env actor eventId db = (Inl f, db') \<Longrightarrow> db' = db"
  unfolding undo_def undoCreated_def undoReverted_def undoDeleted_def Let_def
  by (auto split: if_splits option.splits dest!: commit_Inl)

lemma clearActivity_events:
  "clearActivity env actor boardId db = (Inr r, db')
   \<Longrightarrow> \<exists>e. events db' = events db @ [e] \<and> ev_type e = ActivityCleared"
  using clearActivity_Inr [of env actor boardId db r db'] by (simp add: newEvent_def)

text \<open>
  C2 (as stated, refuted). Creating the board ``Sprint'' commits four activity events,
  one \<^verbatim>\<open>board.created\<close> and one \<^verbatim>\<open>list.created\<close> for each default list;
  deleting the board of the scenario commits none, and the five events the board had
  are gone with it.
\<close>

theorem committed_mutation_events_counterexample:
  "events emptyDb = []
   \<and> \<not> isl (fst (createBoard (demoEnv ''b'' 1) demoActor (Some ''Sprint'') emptyDb))
   \<and> map ev_type (events (snd (createBoard (demoEnv ''b'' 1) demoActor (Some ''Sprint'') emptyDb)))
       = [BoardCreated, ListCreated, ListCreated, ListCreated]
   \<and> length (events sprintDb) = 5
   \<and> fst (deleteBoard (demoEnv ''z'' 9) demoActor ''b'' sprintDb) = Inr ''b''
   \<and> events (snd (deleteBoard (demoEnv ''z'' 9) demoActor ''b'' sprintDb)) = []"
  by code_simp

text \<open>
  C2 (amended). Every mutating operation on a board, list or card that commits, other
  than board creation and board deletion, creates exactly one activity event in the
  transaction of the mutation: renaming a board, creating, renaming and deleting a
  list, creating, updating, moving and deleting a card, and an undo that is not the
  \<^verbatim>\<open>alreadyUndone\<close> no-op each leave the log longer by one event of their type.
  Board creation creates four events (one \<^verbatim>\<open>board.created\<close> and three
  \<^verbatim>\<open>list.created\<close>); board deletion creates none and removes the events of the
  board.
\<close>

theorem committed_mutation_events:
  "(renameBoard env actor boardId name db = (Inr r1, d1)
      \<longrightarrow> (\<exists>e. events d1 = events db @ [e] \<and> ev_type e = BoardRenamed))
   \<and> (createList env actor boardId title db = (Inr r2, d2)
      \<longrightarrow> (\<exists>e. events d2 = events db @ [e] \<and> ev_type e = ListCreated))
   \<and> (renameList env actor boardId listId titleOpt db = (Inr r3, d3)
      \<longrightarrow> (\<exists>e. events d3 = events db @ [e] \<and> ev_type e = ListRenamed))
   \<and> (deleteList env actor boardId listId db = (Inr r4, d4)
      \<longrightarrow> (\<exists>e. events d4 = events db @ [e] \<and> ev_type e = ListDeleted))
   \<and> (createCard env actor boardId listId title description dueAt db = (Inr r5, d5)
      \<longrightarrow> (\<exists>e. events d5 = events db @ [e] \<and> ev_type e = CardCreated))
   \<and> (updateCard env actor cardId u db = (Inr r6, d6)
      \<longrightarrow> (\<exists>e. events d6 = events db @ [e] \<and> ev_type e = CardUpdated))
   \<and> (moveCard env actor cardId toListId beforeCardId afterCardId db = (Inr r7, d7)
      \<longrightarrow> (\<exists>e. events d7 = events db @ [e] \<and> ev_type e = CardMoved))
   \<and> (deleteCard env actor cardId db = (Inr r8, d8)
      \<longrightarrow> (\<exists>e. events d8 = events db @ [e] \<and> ev_type e = CardDeleted))
   \<and> (undo env actor eventId db = (Inr r9, d9) \<and> r9 \<noteq> AlreadyUndone
      \<longrightarrow> (\<exists>e. events d9 = events db @ [e] \<and> ev_type e = CardUndone))
   \<and> (createBoard env actor nameOpt db = (Inr r10, d10)
      \<longrightarrow> (\<exists>e1 e2 e3 e4. events d10 = events db @ [e1, e2, e3, e4]
             \<and> ev_type e1 = BoardCreated \<and> ev_type e2 = ListCreated
             \<and> ev_type e3 = ListCreated \<and> ev_type e4 = ListCreated))
   \<and> (deleteBoard env actor boardId db = (Inr r11, d11)
      \<longrightarrow> events d11 = filter (\<lambda>e. ev_boardId e \<noteq> boardId) (events db))"
  using renameBoard_events [of env actor boardId name db r1 d1]
    createList_events [of env actor boardId title db r2 d2]
    renameList_events [of env actor boardId listId titleOpt db r3 d3]
    deleteList_events [of env actor boardId listId db r4 d4]
    createCard_events [of env actor boardId listId title description dueAt db r5 d5]
    updateCard_events [of env actor cardId u db r6 d6]
    moveCard_events [of env actor cardId toListId beforeCardId afterCardId db r7 d7]
    deleteCard_events [of env actor cardId db r8 d8]
    undo_events [of env actor eventId db r9 d9]
    createBoard_events [of env actor nameOpt db r10 d10]
    deleteBoard_events [of env actor boardId db r11 d11]
  by (intro conjI impI) (blast | simp)+

lemma committed: "\<not> isl (fst p) \<Longrightarrow> p = (Inr (projr (fst p)), snd p)"
  by (cases p, cases "fst p") auto

theorem committed_mutation_events_witness:
  "(\<exists>e. events (snd (renameBoard (demoEnv ''w'' 9) demoActor ''b'' ''Sprint 2'' sprintDb))
          = events sprintDb @ [e] \<and> ev_type e = BoardRenamed)
   \<and> (\<exists>e. events (snd (createList (demoEnv ''w'' 9) demoActor ''b'' ''Review'' sprintDb))
          = events sprintDb @ [e] \<and> ev_type e = ListCreated)
   \<and> (\<exists>e. events (snd (renameList (demoEnv ''w'' 9) demoActor ''b'' ''b+'' (Some ''Backlog'') sprintDb))
          = events sprintDb @ [e] \<and> ev_type e = ListRenamed)
   \<and> (\<exists>e. events (snd (deleteList (demoEnv ''w'' 9) demoActor ''b'' ''b+++'' sprintDb))
          = events sprintDb @ [e] \<and> ev_type e = ListDeleted)
   \<and> (\<exists>e. events (snd (createCard (demoEnv ''w'' 9) demoActor ''b'' ''b++'' ''Write tests''
                          None None sprintDb))
          = events sprintDb @ [e] \<and> ev_type e = CardCreated)
   \<and> (\<exists>e. events (snd (updateCard (demoEnv ''w'' 9) demoActor ''c''
                          \<lparr>u_title = Some ''Fix bug now'', u_description = None, u_dueAt = None\<rparr>
                          sprintDb))
          = events sprintDb @ [e] \<and> ev_type e = CardUpdated)
   \<and> (\<exists>e. events (snd (moveCard (demoEnv ''w'' 9) demoActor ''c'' ''b++'' None None sprintDb))
          = events sprintDb @ [e] \<and> ev_type e = CardMoved)
   \<and> (\<exists>e. events (snd (deleteCard (demoEnv ''w'' 9) demoActor ''c'' sprintDb))
          = events sprintDb @ [e] \<and> ev_type e = CardDeleted)
   \<and> (\<exists>e. events (snd (undo (demoEnv ''w'' 9) demoActor ''c+'' sprintDb))
          = events sprintDb @ [e] \<and> ev_type e = CardUndone)
   \<and> (\<exists>e1 e2 e3 e4. events (snd (createBoard (demoEnv ''w'' 9) demoActor None sprintDb))
          = events sprintDb @ [e1, e2, e3, e4]
          \<and> ev_type e1 = BoardCreated \<and> ev_type e2 = ListCreated
          \<and> ev_type e3 = ListCreated \<and> ev_type e4 = ListCreated)
   \<and> events (snd (deleteBoard (demoEnv ''w'' 9) demoActor ''b'' sprintDb))
       = filter (\<lambda>e. ev_boardId e \<noteq> ''b'') (events sprintDb)"
proof -
  let ?E = "demoEnv ''w'' 9"
  let ?u = "\<lparr>u_title = Some ''Fix bug now'', u_description = None, u_dueAt = None\<rparr>"
  have ok:
    "\<not> isl (fst (renameBoard ?E demoActor ''b'' ''Sprint 2'' sprintDb))"
    "\<not> isl (fst (createList ?E demoActor ''b'' ''Review'' sprintDb))"
    "\<not> isl (fst (renameList ?E demoActor ''b'' ''b+'' (Some ''Backlog'') sprintDb))"
    "\<not> isl (fst (deleteList ?E demoActor ''b'' ''b+++'' sprintDb))"
    "\<not> isl (fst (createCard ?E demoActor ''b'' ''b++'' ''Write tests'' None None sprintDb))"
    "\<not> isl (fst (updateCard ?E demoActor ''c'' ?u sprintDb))"
    "\<not> isl (fst (moveCard ?E demoActor ''c'' ''b++'' None None sprintDb))"
    "\<not> isl (fst (deleteCard ?E demoActor ''c'' sprintDb))"
    "\<not> isl (fst (undo ?E demoActor ''c+'' sprintDb))"
    "\<not> isl (fst (createBoard ?E demoActor None sprintDb))"
    "\<not> isl (fst (deleteBoard ?E demoActor ''b'' sprintDb))"
    by code_simp+
  have mut: "projr (fst (undo ?E demoActor ''c+'' sprintDb)) \<noteq> AlreadyUndone"
    by code_simp
  note t1 = committed_mutation_events
  note t2 = t1 [THEN conjunct2]
  note t3 = t2 [THEN conjunct2]
  note t4 = t3 [THEN conjunct2]
  note t5 = t4 [THEN conjunct2]
  note t6 = t5 [THEN conjunct2]
  note t7 = t6 [THEN conjunct2]
  note t8 = t7 [THEN conjunct2]
  note t9 = t8 [THEN conjunct2]
  note t10 = t9 [THEN conjunct2]
  note t11 = t10 [THEN conjunct2]
  note c1 = t1 [THEN conjunct1, THEN mp, OF committed [OF ok(1)]]
  note c2 = t2 [THEN conjunct1, THEN mp, OF committed [OF ok(2)]]
  note c3 = t3 [THEN conjunct1, THEN mp, OF committed [OF ok(3)]]
  note c4 = t4 [THEN conjunct1, THEN mp, OF committed [OF ok(4)]]
  note c5 = t5 [THEN conjunct1, THEN mp, OF committed [OF ok(5)]]
  note c6 = t6 [THEN conjunct1, THEN mp, OF committed [OF ok(6)]]
  note c7 = t7 [THEN conjunct1, THEN mp, OF committed [OF ok(7)]]
  note c8 = t8 [THEN conjunct1, THEN mp, OF committed [OF ok(8)]]
  note c9 = t9 [THEN conjunct1, THEN mp, OF conjI [OF committed [OF ok(9)] mut]]
  note c10 = t10 [THEN conjunct1, THEN mp, OF committed [OF ok(10)]]
  note c11 = t11 [THEN mp, OF committed [OF ok(11)]]
  from c1 c2 c3 c4 c5 c6 c7 c8 c9 c10 c11 show ?thesis by (intro conjI)
qed

end
